theory Spec2Isabelle
  imports Complex_Main "HOL-Library.Char_ord" "HOL-Library.List_Lexorder" "HOL-Library.Option_ord"
begin

section \<open>Common values\<close>

text \<open>
  Exceptions of the Python program are values. Every function of the model that can raise
  returns \<open>exn + 'a\<close>, with \<open>Inl\<close> the exception.
\<close>

datatype exn =
    IntegrityError
  | ValueError string
  | KeyError string
  | IndexError
  | OtherError string

text \<open>
  A \<open>datetime\<close> object is carried by the text that \<open>isoformat()\<close> gives for it: it is the
  only projection of a datetime that the storage layer uses.
\<close>

datatype datetime = DateTime string

fun isoformat :: "datetime \<Rightarrow> string" where
  "isoformat (DateTime s) = s"

text \<open>
  A metadata dictionary is a list of keys with their values, each value already rendered as
  JSON text. \<open>json_dumps\<close> writes the object the way \<open>json.dumps\<close> does by default.
\<close>

type_synonym json_dict = "(string \<times> string) list"

fun join_with :: "string \<Rightarrow> string list \<Rightarrow> string" where
  "join_with sep [] = []"
| "join_with sep [x] = x"
| "join_with sep (x # y # ys) = x @ sep @ join_with sep (y # ys)"

definition json_dumps :: "json_dict \<Rightarrow> string" where
  "json_dumps d =
     ''{'' @ join_with '', '' (map (\<lambda>(k, v). [CHR 0x22] @ k @ [CHR 0x22] @ '': '' @ v) d) @ ''}''"

text \<open>\<open>json.dumps(metadata) if metadata else None\<close>: an absent or empty dictionary is stored as NULL.\<close>

definition metadata_json :: "json_dict option \<Rightarrow> string option" where
  "metadata_json metadata =
     (case metadata of None \<Rightarrow> None | Some d \<Rightarrow> (if d = [] then None else Some (json_dumps d)))"

section \<open>Storage layer: \<open>knowledge_graph.py\<close>\<close>

text \<open>
  The five tables of the schema. A table is the list of its rows in insertion order.
  \<open>CURRENT_TIMESTAMP\<close> is the argument \<open>now\<close> of every writing operation.
\<close>

record entity_row =
  ent_id :: string
  ent_type :: string
  ent_name :: string
  ent_email :: "string option"
  ent_source :: string
  ent_source_account :: "string option"
  ent_metadata :: "string option"
  ent_created_at :: string
  ent_updated_at :: string

record content_row =
  con_id :: string
  con_type :: string
  con_title :: "string option"
  con_body :: "string option"
  con_source :: string
  con_source_account :: "string option"
  con_source_id :: "string option"
  con_url :: "string option"
  con_timestamp :: "string option"
  con_metadata :: "string option"
  con_created_at :: string
  con_updated_at :: string

record relationship_row =
  rel_id :: nat
  rel_from_id :: string
  rel_from_type :: string
  rel_to_id :: string
  rel_to_type :: string
  rel_relation :: string
  rel_metadata :: "string option"
  rel_created_at :: string

record changelog_row =
  log_id :: nat
  log_table_name :: string
  log_record_id :: string
  log_action :: string
  log_old_value :: "string option"
  log_new_value :: "string option"
  log_timestamp :: string

record sync_row =
  syn_source :: string
  syn_account :: string
  syn_last_sync :: "string option"
  syn_last_sync_token :: "string option"
  syn_metadata :: "string option"

text \<open>
  The database. \<open>rel_seq\<close> and \<open>log_seq\<close> are the AUTOINCREMENT counters of the
  relationships and changelog tables (the largest id ever given).
\<close>

record kg_state =
  entities :: "entity_row list"
  content :: "content_row list"
  relationships :: "relationship_row list"
  changelog :: "changelog_row list"
  sync_state :: "sync_row list"
  rel_seq :: nat
  log_seq :: nat

definition empty_kg :: kg_state where
  "empty_kg = \<lparr>entities = [], content = [], relationships = [], changelog = [],
               sync_state = [], rel_seq = 0, log_seq = 0\<rparr>"

text \<open>\<open>_log_change\<close>: one INSERT into the changelog, \<open>old_value\<close> and \<open>new_value\<close> left NULL by every caller.\<close>

definition log_change :: "string \<Rightarrow> kg_state \<Rightarrow> string \<Rightarrow> string \<Rightarrow> string \<Rightarrow> kg_state" where
  "log_change now conn table_name record_id action =
     conn\<lparr>changelog := changelog conn @
             [\<lparr>log_id = Suc (log_seq conn), log_table_name = table_name,
               log_record_id = record_id, log_action = action, log_old_value = None,
               log_new_value = None, log_timestamp = now\<rparr>],
          log_seq := Suc (log_seq conn)\<rparr>"

definition get_entity :: "kg_state \<Rightarrow> string \<Rightarrow> entity_row option" where
  "get_entity s entity_id = find (\<lambda>r. ent_id r = entity_id) (entities s)"

definition get_content :: "kg_state \<Rightarrow> string \<Rightarrow> content_row option" where
  "get_content s content_id = find (\<lambda>r. con_id r = content_id) (content s)"

definition upsert_entity ::
  "string \<Rightarrow> kg_state \<Rightarrow> string \<Rightarrow> string \<Rightarrow> string \<Rightarrow> string \<Rightarrow> string option \<Rightarrow>
   string option \<Rightarrow> json_dict option \<Rightarrow> bool \<times> kg_state" where
  "upsert_entity now s entity_id entity_type name source source_account email metadata =
     (let existing = find (\<lambda>r. ent_id r = entity_id) (entities s);
          mj = metadata_json metadata
      in if existing \<noteq> None then
           (False,
            log_change now
              (s\<lparr>entities := map (\<lambda>r. if ent_id r = entity_id
                     then r\<lparr>ent_type := entity_type, ent_name := name, ent_email := email,
                            ent_source := source, ent_source_account := source_account,
                            ent_metadata := mj, ent_updated_at := now\<rparr>
                     else r) (entities s)\<rparr>)
              ''entities'' entity_id ''update'')
         else
           (True,
            log_change now
              (s\<lparr>entities := entities s @
                     [\<lparr>ent_id = entity_id, ent_type = entity_type, ent_name = name,
                       ent_email = email, ent_source = source,
                       ent_source_account = source_account, ent_metadata = mj,
                       ent_created_at = now, ent_updated_at = now\<rparr>]\<rparr>)
              ''entities'' entity_id ''insert''))"

definition upsert_content ::
  "string \<Rightarrow> kg_state \<Rightarrow> string \<Rightarrow> string \<Rightarrow> string \<Rightarrow> string option \<Rightarrow> string option \<Rightarrow>
   string option \<Rightarrow> string option \<Rightarrow> string option \<Rightarrow> datetime option \<Rightarrow> json_dict option \<Rightarrow>
   bool \<times> kg_state" where
  "upsert_content now s content_id content_type source source_account title body source_id url
     timestamp metadata =
     (let existing = find (\<lambda>r. con_id r = content_id) (content s);
          mj = metadata_json metadata;
          ts = map_option isoformat timestamp
      in if existing \<noteq> None then
           (False,
            log_change now
              (s\<lparr>content := map (\<lambda>r. if con_id r = content_id
                     then r\<lparr>con_type := content_type, con_title := title, con_body := body,
                            con_source := source, con_source_account := source_account,
                            con_source_id := source_id, con_url := url, con_timestamp := ts,
                            con_metadata := mj, con_updated_at := now\<rparr>
                     else r) (content s)\<rparr>)
              ''content'' content_id ''update'')
         else
           (True,
            log_change now
              (s\<lparr>content := content s @
                     [\<lparr>con_id = content_id, con_type = content_type, con_title = title,
                       con_body = body, con_source = source,
                       con_source_account = source_account, con_source_id = source_id,
                       con_url = url, con_timestamp = ts, con_metadata = mj,
                       con_created_at = now, con_updated_at = now\<rparr>]\<rparr>)
              ''content'' content_id ''insert''))"

text \<open>
  The INSERT of \<open>add_relationship\<close>, under the constraints of the schema with
  \<open>PRAGMA foreign_keys = ON\<close>: \<open>from_id\<close> and \<open>to_id\<close> reference \<open>entities(id)\<close>, and
  \<open>(from_id, to_id, relation)\<close> is unique. A violated constraint raises
  \<open>sqlite3.IntegrityError\<close> and leaves the table as it was.
\<close>

definition insert_relationship ::
  "string \<Rightarrow> kg_state \<Rightarrow> string \<Rightarrow> string \<Rightarrow> string \<Rightarrow> string \<Rightarrow> string \<Rightarrow> string option \<Rightarrow>
   exn + kg_state" where
  "insert_relationship now conn from_id from_type to_id to_type relation mj =
     (if \<exists>r \<in> set (relationships conn).
           rel_from_id r = from_id \<and> rel_to_id r = to_id \<and> rel_relation r = relation
      then Inl IntegrityError
      else if from_id \<notin> ent_id ` set (entities conn) \<or> to_id \<notin> ent_id ` set (entities conn)
      then Inl IntegrityError
      else Inr (conn\<lparr>relationships := relationships conn @
                  [\<lparr>rel_id = Suc (rel_seq conn), rel_from_id = from_id,
                    rel_from_type = from_type, rel_to_id = to_id, rel_to_type = to_type,
                    rel_relation = relation, rel_metadata = mj, rel_created_at = now\<rparr>],
                rel_seq := Suc (rel_seq conn)\<rparr>))"

text \<open>
  \<open>add_relationship\<close>: the \<open>try\<close> around the INSERT catches \<open>sqlite3.IntegrityError\<close> only;
  any other exception leaves the function. It does not call \<open>_log_change\<close>.
\<close>

definition add_relationship ::
  "string \<Rightarrow> kg_state \<Rightarrow> string \<Rightarrow> string \<Rightarrow> string \<Rightarrow> string \<Rightarrow> string \<Rightarrow> json_dict option \<Rightarrow>
   exn + (bool \<times> kg_state)" where
  "add_relationship now s from_id from_type to_id to_type relation metadata =
     (case insert_relationship now s from_id from_type to_id to_type relation
             (metadata_json metadata) of
        Inr s' \<Rightarrow> Inr (True, s')
      | Inl IntegrityError \<Rightarrow> Inr (False, s)
      | Inl e \<Rightarrow> Inl e)"

definition delete_content :: "string \<Rightarrow> kg_state \<Rightarrow> string \<Rightarrow> bool \<times> kg_state" where
  "delete_content now s content_id =
     (let rowcount = length (filter (\<lambda>r. con_id r = content_id) (content s));
          conn = s\<lparr>content := filter (\<lambda>r. con_id r \<noteq> content_id) (content s)\<rparr>
      in if rowcount > 0 then (True, log_change now conn ''content'' content_id ''delete'')
         else (False, conn))"

text \<open>
  \<open>delete_entity\<close>: both foreign keys of the relationships table are \<open>ON DELETE CASCADE\<close>, so
  the DELETE also removes every edge from or to the entity.
\<close>

definition delete_entity :: "string \<Rightarrow> kg_state \<Rightarrow> string \<Rightarrow> bool \<times> kg_state" where
  "delete_entity now s entity_id =
     (let rowcount = length (filter (\<lambda>r. ent_id r = entity_id) (entities s));
          conn = s\<lparr>entities := filter (\<lambda>r. ent_id r \<noteq> entity_id) (entities s),
                   relationships :=
                     (if rowcount > 0
                      then filter (\<lambda>r. rel_from_id r \<noteq> entity_id \<and> rel_to_id r \<noteq> entity_id)
                             (relationships s)
                      else relationships s)\<rparr>
      in if rowcount > 0 then (True, log_change now conn ''entities'' entity_id ''delete'')
         else (False, conn))"


text \<open>\<open>set_last_sync\<close>: INSERT ... ON CONFLICT(source, account) DO UPDATE. No changelog entry.\<close>

definition set_last_sync ::
  "kg_state \<Rightarrow> string \<Rightarrow> string \<Rightarrow> datetime \<Rightarrow> string option \<Rightarrow> json_dict option \<Rightarrow> kg_state" where
  "set_last_sync s source account last_sync sync_token metadata =
     (let mj = metadata_json metadata;
          row = \<lparr>syn_source = source, syn_account = account,
                 syn_last_sync = Some (isoformat last_sync), syn_last_sync_token = sync_token,
                 syn_metadata = mj\<rparr>
      in if \<exists>r \<in> set (sync_state s). syn_source r = source \<and> syn_account r = account
         then s\<lparr>sync_state := map (\<lambda>r. if syn_source r = source \<and> syn_account r = account
                                         then row else r) (sync_state s)\<rparr>
         else s\<lparr>sync_state := sync_state s @ [row]\<rparr>)"

text \<open>A database with two people, built by two calls of \<open>upsert_entity\<close> on the empty one.\<close>

definition kg_two_people :: kg_state where
  "kg_two_people =
     snd (upsert_entity ''2024-01-01 00:00:00''
       (snd (upsert_entity ''2024-01-01 00:00:00'' empty_kg ''person:a'' ''person'' ''Person A''
               ''gmail'' None None None))
       ''person:b'' ''person'' ''Person B'' ''gmail'' None None None)"

subsection \<open>\<open>search_content\<close>\<close>

text \<open>
  SQLite's \<open>LIKE\<close>: \<open>%\<close> in the pattern matches any run of characters, \<open>_\<close> any one
  character, and every other character matches itself, upper and lower case of the ASCII
  letters taken as equal. \<open>like pattern text\<close>.
\<close>

definition ascii_lower :: "char \<Rightarrow> char" where
  "ascii_lower c =
     (if CHR ''A'' \<le> c \<and> c \<le> CHR ''Z''
      then (case c of Char b0 b1 b2 b3 b4 b5 b6 b7 \<Rightarrow> Char b0 b1 b2 b3 b4 True b6 b7)
      else c)"

definition str_lower :: "string \<Rightarrow> string" where
  "str_lower s = map ascii_lower s"


fun like :: "string \<Rightarrow> string \<Rightarrow> bool" where
  "like [] [] = True"
| "like [] (c # cs) = False"
| "like (p # ps) [] = (p = CHR ''%'' \<and> like ps [])"
| "like (p # ps) (c # cs) =
     (if p = CHR ''%'' then like ps (c # cs) \<or> like (p # ps) cs
      else (p = CHR ''_'' \<or> ascii_lower p = ascii_lower c) \<and> like ps cs)"

text \<open>Python's \<open>sub in s\<close>.\<close>

fun str_contains :: "string \<Rightarrow> string \<Rightarrow> bool" where
  "str_contains [] sub = (sub = [])"
| "str_contains (c # cs) sub = (take (length sub) (c # cs) = sub \<or> str_contains cs sub)"

text \<open>A comparison with NULL is not true, so a NULL column never satisfies a condition.\<close>

definition like_col :: "string \<Rightarrow> string option \<Rightarrow> bool" where
  "like_col pat col = (case col of None \<Rightarrow> False | Some t \<Rightarrow> like pat t)"

text \<open>
  \<open>ORDER BY key DESC\<close>, NULL the smallest key. Rows with equal keys keep the order they had
  (SQLite leaves their order open; Python's \<open>sort(reverse=True)\<close> promises it).
\<close>

definition order_by_desc :: "('a \<Rightarrow> 'k::linorder) \<Rightarrow> 'a list \<Rightarrow> 'a list" where
  "order_by_desc key xs = rev (sort_key key (rev xs))"

text \<open>\<open>LIMIT n\<close>: a negative \<open>n\<close> is no bound.\<close>

definition sql_limit :: "int \<Rightarrow> 'a list \<Rightarrow> 'a list" where
  "sql_limit n xs = (if n < 0 then xs else take (nat n) xs)"

text \<open>
  The list \<open>conditions\<close> that \<open>search_content\<close> builds, one entry for every argument that is
  truthy, joined by \<open>AND\<close>. The time bounds compare the stored \<open>isoformat()\<close> text with the
  argument's, as text.
\<close>

definition search_conditions ::
  "string option \<Rightarrow> string option \<Rightarrow> string option \<Rightarrow> string option \<Rightarrow> datetime option \<Rightarrow>
   datetime option \<Rightarrow> (content_row \<Rightarrow> bool) list" where
  "search_conditions query content_type source source_account since until =
     (case query of None \<Rightarrow> [] | Some q \<Rightarrow>
        if q = [] then []
        else [\<lambda>r. like_col (''%'' @ q @ ''%'') (con_title r) \<or> like_col (''%'' @ q @ ''%'') (con_body r)])
     @ (case content_type of None \<Rightarrow> [] | Some t \<Rightarrow>
          if t = [] then [] else [\<lambda>r. con_type r = t])
     @ (case source of None \<Rightarrow> [] | Some x \<Rightarrow>
          if x = [] then [] else [\<lambda>r. con_source r = x])
     @ (case source_account of None \<Rightarrow> [] | Some a \<Rightarrow>
          if a = [] then [] else [\<lambda>r. con_source_account r = Some a])
     @ (case since of None \<Rightarrow> [] | Some d \<Rightarrow>
          [\<lambda>r. case con_timestamp r of None \<Rightarrow> False | Some t \<Rightarrow> isoformat d \<le> t])
     @ (case until of None \<Rightarrow> [] | Some d \<Rightarrow>
          [\<lambda>r. case con_timestamp r of None \<Rightarrow> False | Some t \<Rightarrow> t \<le> isoformat d])"

definition search_content ::
  "kg_state \<Rightarrow> string option \<Rightarrow> string option \<Rightarrow> string option \<Rightarrow> string option \<Rightarrow>
   datetime option \<Rightarrow> datetime option \<Rightarrow> int \<Rightarrow> content_row list" where
  "search_content s query content_type source source_account since until limit =
     (let conditions = search_conditions query content_type source source_account since until
      in sql_limit limit
           (order_by_desc con_timestamp
              (filter (\<lambda>r. list_all (\<lambda>c. c r) conditions) (content s))))"



text \<open>A database with two mails and a file without a timestamp.\<close>

definition kg_mails :: kg_state where
  "kg_mails =
     snd (upsert_content ''2024-01-03 00:00:00''
       (snd (upsert_content ''2024-01-03 00:00:00''
          (snd (upsert_content ''2024-01-03 00:00:00'' empty_kg
                  ''gmail:acct:1'' ''email'' ''gmail'' (Some ''acct'') (Some ''Quarterly Report'')
                  (Some ''the quarterly numbers'') (Some ''1'') None
                  (Some (DateTime ''2024-01-01T10:00:00'')) None))
          ''drive:acct:3'' ''file'' ''drive'' (Some ''acct'') (Some ''Notes'')
          (Some ''Quarterly plan'') (Some ''3'') None None None))
       ''gmail:acct:2'' ''email'' ''gmail'' (Some ''acct'') (Some ''abc'') None (Some ''2'') None
       (Some (DateTime ''2024-01-02T10:00:00'')) None)"

definition mail1 :: content_row where
  "mail1 = \<lparr>con_id = ''gmail:acct:1'', con_type = ''email'', con_title = Some ''Quarterly Report'',
      con_body = Some ''the quarterly numbers'', con_source = ''gmail'',
      con_source_account = Some ''acct'', con_source_id = Some ''1'', con_url = None,
      con_timestamp = Some ''2024-01-01T10:00:00'', con_metadata = None,
      con_created_at = ''2024-01-03 00:00:00'', con_updated_at = ''2024-01-03 00:00:00''\<rparr>"

definition file3 :: content_row where
  "file3 = \<lparr>con_id = ''drive:acct:3'', con_type = ''file'', con_title = Some ''Notes'',
      con_body = Some ''Quarterly plan'', con_source = ''drive'',
      con_source_account = Some ''acct'', con_source_id = Some ''3'', con_url = None,
      con_timestamp = None, con_metadata = None,
      con_created_at = ''2024-01-03 00:00:00'', con_updated_at = ''2024-01-03 00:00:00''\<rparr>"

definition mail2 :: content_row where
  "mail2 = \<lparr>con_id = ''gmail:acct:2'', con_type = ''email'', con_title = Some ''abc'',
      con_body = None, con_source = ''gmail'',
      con_source_account = Some ''acct'', con_source_id = Some ''2'', con_url = None,
      con_timestamp = Some ''2024-01-02T10:00:00'', con_metadata = None,
      con_created_at = ''2024-01-03 00:00:00'', con_updated_at = ''2024-01-03 00:00:00''\<rparr>"

section \<open>Query engine: \<open>query/engine.py\<close>\<close>

text \<open>
  A vector of floats. Scores and distances are rational numbers: the model computes the
  arithmetic of the source exactly, without the rounding of binary floating point.
\<close>

type_synonym embedding = "rat list"

text \<open>
  What \<open>chromadb\<close>'s \<open>Collection.query\<close> returns for one query embedding: a list of id
  lists, and the lists asked for with \<open>include\<close>, which may be absent.
\<close>

record chroma_raw =
  raw_ids :: "string list list"
  raw_distances :: "rat list list option"
  raw_documents :: "string list list option"
  raw_metadatas :: "json_dict list list option"

text \<open>The flattened dictionary that \<open>VectorStore.search\<close> returns.\<close>

record coll_results =
  cr_ids :: "string list"
  cr_distances :: "rat list"
  cr_documents :: "string list"
  cr_metadatas :: "json_dict list"

text \<open>
  The collaborators of the query engine. The database file, the embedding provider and the
  \<open>chromadb\<close> client are outside the program: each is a function that returns its answer or
  the exception it raises. \<open>env_kg\<close> is the database as a connection finds it, or the
  exception that \<open>sqlite3\<close> raises on it; \<open>env_embed\<close> is \<open>Embedder.embed\<close>;
  \<open>env_get_collection\<close>, \<open>env_query\<close> and \<open>env_list_collections\<close> are the \<open>chromadb\<close> client.
\<close>

record engine_env =
  env_kg :: "exn + kg_state"
  env_embed :: "string \<Rightarrow> exn + embedding"
  env_get_collection :: "string \<Rightarrow> exn option"
  env_query :: "string \<Rightarrow> embedding \<Rightarrow> int \<Rightarrow> exn + chroma_raw"
  env_list_collections :: "exn + string list"

definition first_or_empty :: "'a list list \<Rightarrow> 'a list" where
  "first_or_empty xss = (case xss of [] \<Rightarrow> [] | xs # _ \<Rightarrow> xs)"

definition empty_coll_results :: coll_results where
  "empty_coll_results = \<lparr>cr_ids = [], cr_distances = [], cr_documents = [], cr_metadatas = []\<rparr>"

text \<open>
  \<open>VectorStore.search\<close>: \<open>get_collection\<close> is called outside the \<open>try\<close>, so its exception
  leaves the function; an exception of the query is caught and gives the empty result.
\<close>

definition vector_store_search :: "engine_env \<Rightarrow> string \<Rightarrow> embedding \<Rightarrow> int \<Rightarrow> exn + coll_results" where
  "vector_store_search env collection query_embedding top_k =
     (case env_get_collection env collection of
        Some e \<Rightarrow> Inl e
      | None \<Rightarrow>
         (case env_query env collection query_embedding top_k of
            Inl e \<Rightarrow> Inr empty_coll_results
          | Inr results \<Rightarrow>
              Inr \<lparr>cr_ids = first_or_empty (raw_ids results),
                   cr_distances =
                     (case raw_distances results of None \<Rightarrow> [] | Some d \<Rightarrow> first_or_empty d),
                   cr_documents =
                     (case raw_documents results of None \<Rightarrow> [] | Some d \<Rightarrow> first_or_empty d),
                   cr_metadatas =
                     (case raw_metadatas results of None \<Rightarrow> [] | Some d \<Rightarrow> first_or_empty d)\<rparr>))"

text \<open>
  One entry of the result list of \<open>search\<close>. A semantic hit has \<open>chunk_id\<close>, \<open>text\<close> and
  \<open>metadata\<close>; a keyword hit is a row of the content table (\<open>res_row\<close>) with \<open>score\<close> and
  \<open>search_type\<close> added.
\<close>

record search_result =
  res_id :: string
  res_type :: string
  res_score :: rat
  res_search_type :: string
  res_chunk_id :: "string option"
  res_text :: "string option"
  res_metadata :: "json_dict option"
  res_row :: "content_row option"

text \<open>
  \<open>doc_id.rsplit(":chunk:", 1)[0] if ":chunk:" in doc_id else doc_id\<close>: the text before the
  last \<open>:chunk:\<close>. \<open>before_last sub s\<close> is \<open>None\<close> when \<open>sub\<close> does not occur in \<open>s\<close>.
\<close>

fun before_last :: "string \<Rightarrow> string \<Rightarrow> string option" where
  "before_last sub [] = (if sub = [] then Some [] else None)"
| "before_last sub (c # cs) =
     (case before_last sub cs of
        Some p \<Rightarrow> Some (c # p)
      | None \<Rightarrow> if take (length sub) (c # cs) = sub then Some [] else None)"

definition content_id_of_chunk :: "string \<Rightarrow> string" where
  "content_id_of_chunk doc_id =
     (case before_last '':chunk:'' doc_id of Some p \<Rightarrow> p | None \<Rightarrow> doc_id)"

text \<open>
  The loop over the hits of one collection, from position \<open>i\<close>. \<open>xs[i] if xs else d\<close> raises
  \<open>IndexError\<close> when \<open>xs\<close> is not empty and too short; the \<open>except\<close> around the collection
  catches it, and the hits appended before stay in the result.
\<close>

fun collection_hits :: "string \<Rightarrow> coll_results \<Rightarrow> nat \<Rightarrow> string list \<Rightarrow> search_result list" where
  "collection_hits collection cr i [] = []"
| "collection_hits collection cr i (doc_id # rest) =
     (if (cr_documents cr \<noteq> [] \<and> length (cr_documents cr) \<le> i)
         \<or> (cr_metadatas cr \<noteq> [] \<and> length (cr_metadatas cr) \<le> i)
         \<or> (cr_distances cr \<noteq> [] \<and> length (cr_distances cr) \<le> i)
      then []
      else \<lparr>res_id = content_id_of_chunk doc_id,
             res_type = collection,
             res_score = (if cr_distances cr \<noteq> [] then 1 - cr_distances cr ! i else 0),
             res_search_type = ''semantic'',
             res_chunk_id = Some doc_id,
             res_text = Some (if cr_documents cr \<noteq> [] then cr_documents cr ! i else []),
             res_metadata = Some (if cr_metadatas cr \<noteq> [] then cr_metadatas cr ! i else []),
             res_row = None\<rparr>
           # collection_hits collection cr (Suc i) rest)"

text \<open>
  \<open>_semantic_search\<close>. An exception of \<open>embed\<close> or of \<open>list_collections\<close> leaves the
  function; an exception inside the loop over one collection is caught there.
\<close>

definition semantic_search ::
  "engine_env \<Rightarrow> string \<Rightarrow> string list option \<Rightarrow> int \<Rightarrow> exn + search_result list" where
  "semantic_search env query content_types top_k =
     (case env_embed env query of
        Inl e \<Rightarrow> Inl e
      | Inr query_embedding \<Rightarrow>
         (case (case content_types of
                  None \<Rightarrow> env_list_collections env
                | Some cts \<Rightarrow> if cts = [] then env_list_collections env else Inr cts) of
            Inl e \<Rightarrow> Inl e
          | Inr collections \<Rightarrow>
              Inr (concat (map (\<lambda>collection.
                     case vector_store_search env collection query_embedding top_k of
                       Inl e \<Rightarrow> []
                     | Inr coll_results \<Rightarrow>
                         collection_hits collection coll_results 0 (cr_ids coll_results))
                   collections))))"

text \<open>
  Python's \<open>s.count(sub)\<close>: the occurrences of \<open>sub\<close> in \<open>s\<close> that do not overlap, from the
  left; for the empty \<open>sub\<close>, \<open>len(s) + 1\<close>.
\<close>

function str_count :: "string \<Rightarrow> string \<Rightarrow> nat" where
  "str_count s sub =
     (if sub = [] then length s + 1
      else if length s < length sub then 0
      else if take (length sub) s = sub then 1 + str_count (drop (length sub) s) sub
      else str_count (tl s) sub)"
  by pat_completeness auto
termination
proof (relation "measure (\<lambda>(s, sub). length s)")
  fix s sub :: string
  assume "sub \<noteq> []" and "\<not> length s < length sub"
  then obtain a as b bs where "sub = a # as" and "s = b # bs"
    by (cases sub; cases s) auto
  then show "((drop (length sub) s, sub), (s, sub)) \<in> measure (\<lambda>(s, sub). length s)"
    and "((tl s, sub), (s, sub)) \<in> measure (\<lambda>(s, sub). length s)"
    by (simp_all add: less_Suc_eq_le)
qed simp

text \<open>The scoring loop of \<open>_keyword_search\<close> for one row.\<close>

definition keyword_score :: "string \<Rightarrow> content_row \<Rightarrow> rat" where
  "keyword_score query r =
     (let query_lower = str_lower query;
          title = str_lower (case con_title r of None \<Rightarrow> [] | Some t \<Rightarrow> t);
          body = str_lower (case con_body r of None \<Rightarrow> [] | Some b \<Rightarrow> b);
          title_matches = str_count title query_lower;
          body_matches = str_count body query_lower
      in min (of_nat (title_matches * 3 + body_matches) * (1 / 10)) (8 / 10))"

definition keyword_result :: "string \<Rightarrow> content_row \<Rightarrow> search_result" where
  "keyword_result query r =
     \<lparr>res_id = con_id r, res_type = con_type r, res_score = keyword_score query r,
      res_search_type = ''keyword'', res_chunk_id = None, res_text = None, res_metadata = None,
      res_row = Some r\<rparr>"

text \<open>
  \<open>_keyword_search\<close>: one \<open>search_content\<close> for every content type, or one for all; the
  filter by source is applied in Python, after the rows are fetched.
\<close>

definition keyword_search ::
  "engine_env \<Rightarrow> string \<Rightarrow> string list option \<Rightarrow> string list option \<Rightarrow> datetime option \<Rightarrow>
   datetime option \<Rightarrow> int \<Rightarrow> exn + search_result list" where
  "keyword_search env query content_types sources since until limit =
     (case env_kg env of
        Inl e \<Rightarrow> Inl e
      | Inr kg \<Rightarrow>
         (let results =
                (case content_types of
                   None \<Rightarrow> search_content kg (Some query) None None None since until limit
                 | Some cts \<Rightarrow>
                     if cts = [] then search_content kg (Some query) None None None since until limit
                     else concat (map (\<lambda>content_type.
                            search_content kg (Some query) (Some content_type) None None
                              since until limit) cts));
              results =
                (case sources of
                   None \<Rightarrow> results
                 | Some srcs \<Rightarrow>
                     if srcs = [] then results
                     else filter (\<lambda>r. con_source r \<in> set srcs) results)
          in Inr (map (keyword_result query) results)))"

text \<open>The two \<open>for\<close> statements of \<open>search\<close>, which append the results whose id was not seen before.\<close>

fun add_unseen ::
  "search_result list \<Rightarrow> search_result list \<times> string set \<Rightarrow> search_result list \<times> string set" where
  "add_unseen [] acc = acc"
| "add_unseen (r # rs) (results, seen_ids) =
     (if res_id r \<notin> seen_ids
      then add_unseen rs (results @ [r], insert (res_id r) seen_ids)
      else add_unseen rs (results, seen_ids))"

text \<open>Python's \<open>xs[:k]\<close>: a negative \<open>k\<close> counts from the end.\<close>

definition py_take :: "int \<Rightarrow> 'a list \<Rightarrow> 'a list" where
  "py_take k xs = (if 0 \<le> k then take (nat k) xs else take (length xs - nat (- k)) xs)"

text \<open>
  The list \<open>results\<close> of \<open>search\<close> before it is sorted. A branch that raises is logged and
  adds nothing.
\<close>

definition search_results ::
  "engine_env \<Rightarrow> string \<Rightarrow> string list option \<Rightarrow> string list option \<Rightarrow> datetime option \<Rightarrow>
   datetime option \<Rightarrow> int \<Rightarrow> bool \<Rightarrow> bool \<Rightarrow> search_result list" where
  "search_results env query content_types sources since until top_k use_semantic use_keyword =
     (let acc = ([], {});
          acc = (if use_semantic
                 then (case semantic_search env query content_types (top_k * 2) of
                         Inl e \<Rightarrow> acc
                       | Inr semantic_results \<Rightarrow> add_unseen semantic_results acc)
                 else acc);
          acc = (if use_keyword
                 then (case keyword_search env query content_types sources since until
                              (top_k * 2) of
                         Inl e \<Rightarrow> acc
                       | Inr keyword_results \<Rightarrow> add_unseen keyword_results acc)
                 else acc)
      in fst acc)"

text \<open>\<open>QueryEngine.search\<close>: \<open>results.sort(key=score, reverse=True)\<close>, then \<open>results[:top_k]\<close>.\<close>

definition search ::
  "engine_env \<Rightarrow> string \<Rightarrow> string list option \<Rightarrow> string list option \<Rightarrow> datetime option \<Rightarrow>
   datetime option \<Rightarrow> int \<Rightarrow> bool \<Rightarrow> bool \<Rightarrow> search_result list" where
  "search env query content_types sources since until top_k use_semantic use_keyword =
     py_take top_k
       (order_by_desc res_score
          (search_results env query content_types sources since until top_k
             use_semantic use_keyword))"

declare str_count.simps [simp del]

text \<open>
  The merge in the words of the specification: the two result lists concatenated, semantic
  first, and of the entries with the same id only the first one kept.
\<close>

fun keep_unseen :: "search_result list \<Rightarrow> string set \<Rightarrow> search_result list" where
  "keep_unseen [] seen = []"
| "keep_unseen (r # rs) seen =
     (if res_id r \<in> seen then keep_unseen rs seen
      else r # keep_unseen rs (insert (res_id r) seen))"

definition merge_results :: "search_result list \<Rightarrow> search_result list \<Rightarrow> search_result list" where
  "merge_results S K = keep_unseen (S @ K) {}"

text \<open>
  A query engine over the database with two mails and a file. The vector store holds one
  chunk of each mail in the collection \<open>email\<close>; the four hits are what the two branches
  return there for the query \<open>quarterly\<close>.
\<close>

definition demo_env :: engine_env where
  "demo_env =
     \<lparr>env_kg = Inr kg_mails,
      env_embed = (\<lambda>text. Inr [1, 0]),
      env_get_collection = (\<lambda>name. None),
      env_query = (\<lambda>name query_embedding n_results.
         if name = ''email''
         then Inr \<lparr>raw_ids = [ [''gmail:acct:2:chunk:0'', ''gmail:acct:1:chunk:0''] ],
                   raw_distances = Some [ [1 / 10, 3 / 10] ],
                   raw_documents = Some [ [''abc'', ''Quarterly Report''] ],
                   raw_metadatas = Some [ [ [], [] ] ]\<rparr>
         else Inr \<lparr>raw_ids = [], raw_distances = None, raw_documents = None,
                   raw_metadatas = None\<rparr>),
      env_list_collections = Inr [''email'', ''file'']\<rparr>"

definition sem_hit2 :: search_result where
  "sem_hit2 = \<lparr>res_id = ''gmail:acct:2'', res_type = ''email'', res_score = 9 / 10,
      res_search_type = ''semantic'', res_chunk_id = Some ''gmail:acct:2:chunk:0'',
      res_text = Some ''abc'', res_metadata = Some [], res_row = None\<rparr>"

definition sem_hit1 :: search_result where
  "sem_hit1 = \<lparr>res_id = ''gmail:acct:1'', res_type = ''email'', res_score = 7 / 10,
      res_search_type = ''semantic'', res_chunk_id = Some ''gmail:acct:1:chunk:0'',
      res_text = Some ''Quarterly Report'', res_metadata = Some [], res_row = None\<rparr>"

definition kw_hit1 :: search_result where
  "kw_hit1 = \<lparr>res_id = ''gmail:acct:1'', res_type = ''email'', res_score = 4 / 10,
      res_search_type = ''keyword'', res_chunk_id = None, res_text = None,
      res_metadata = None, res_row = Some mail1\<rparr>"

definition kw_hit3 :: search_result where
  "kw_hit3 = \<lparr>res_id = ''drive:acct:3'', res_type = ''file'', res_score = 1 / 10,
      res_search_type = ''keyword'', res_chunk_id = None, res_text = None,
      res_metadata = None, res_row = Some file3\<rparr>"

section \<open>Chunker: \<open>semantic/chunker.py\<close>\<close>

text \<open>
  Python's \<open>str.strip()\<close>, over the ASCII range: the characters that \<open>str.isspace\<close> takes
  for white space are tab, line feed, vertical tab, form feed, carriage return, the four
  separators \<open>0x1C\<close> to \<open>0x1F\<close> and the space.
\<close>

definition py_isspace :: "char \<Rightarrow> bool" where
  "py_isspace c = (c \<in> {CHR 0x09, CHR 0x0A, CHR 0x0B, CHR 0x0C, CHR 0x0D,
                         CHR 0x1C, CHR 0x1D, CHR 0x1E, CHR 0x1F, CHR 0x20})"

definition str_strip :: "string \<Rightarrow> string" where
  "str_strip s = rev (dropWhile py_isspace (rev (dropWhile py_isspace s)))"

record Chunk =
  chunk_text :: string
  start_char :: int
  end_char :: int
  chunk_index :: nat
  chunk_metadata :: "json_dict option"

record text_chunker =
  chunk_size :: int
  chunk_overlap :: int
  min_chunk_size :: int


definition email_chunker :: text_chunker where
  "email_chunker = \<lparr>chunk_size = 800, chunk_overlap = 150, min_chunk_size = 10\<rparr>"

text \<open>
  \<open>_split_into_sentences\<close>. The regular expression engine is outside the program:
  \<open>re_split\<close> stands for \<open>re.split(sentence_pattern, text)\<close>. The loop over the parts keeps
  the position in the text: after each part it skips the blanks, line feeds and tabs that
  follow.
\<close>

definition skip_separator :: "string \<Rightarrow> nat \<Rightarrow> nat" where
  "skip_separator text current_pos =
     current_pos +
       length (takeWhile (\<lambda>c. c \<in> {CHR '' '', CHR 0x0A, CHR 0x09}) (drop current_pos text))"

fun sentence_positions :: "string \<Rightarrow> nat \<Rightarrow> string list \<Rightarrow> (nat \<times> string) list" where
  "sentence_positions text current_pos [] = []"
| "sentence_positions text current_pos (part # parts) =
     (let found = (if str_strip part \<noteq> [] then [(current_pos, str_strip part)] else []);
          pos = current_pos + length part;
          pos = (if pos < length text then skip_separator text pos else pos)
      in found @ sentence_positions text pos parts)"

definition split_into_sentences :: "(string \<Rightarrow> string list) \<Rightarrow> string \<Rightarrow> (nat \<times> string) list" where
  "split_into_sentences re_split text = sentence_positions text 0 (re_split text)"

text \<open>\<open>_get_overlap\<close>: whole sentences from the end, as long as they fit in \<open>target_length\<close>.\<close>

fun overlap_sentences :: "string list \<Rightarrow> int \<Rightarrow> int \<Rightarrow> string list \<Rightarrow> string list" where
  "overlap_sentences [] target_length overlap_length acc = acc"
| "overlap_sentences (sentence # rest) target_length overlap_length acc =
     (if overlap_length + int (length sentence) > target_length then acc
      else overlap_sentences rest target_length
             (overlap_length + int (length sentence) + 1) (sentence # acc))"

definition get_overlap :: "string list \<Rightarrow> int \<Rightarrow> string" where
  "get_overlap sentences target_length =
     (if sentences = [] then []
      else join_with '' '' (overlap_sentences (rev sentences) target_length 0 []))"

text \<open>The variables of the loop of \<open>chunk\<close>.\<close>

record chunk_loop_state =
  chunks :: "Chunk list"
  current_chunk :: "string list"
  current_start :: int
  current_length :: int
  next_index :: nat

fun chunk_loop ::
  "text_chunker \<Rightarrow> json_dict option \<Rightarrow> (nat \<times> string) list \<Rightarrow> chunk_loop_state \<Rightarrow>
   chunk_loop_state" where
  "chunk_loop cfg metadata [] st = st"
| "chunk_loop cfg metadata ((sentence_start, sentence) # rest) st =
     (let sentence_length = int (length sentence);
          st = (if current_length st + sentence_length > chunk_size cfg \<and> current_chunk st \<noteq> []
                then
                  (let chunk_txt = join_with '' '' (current_chunk st);
                       overlap_text = get_overlap (current_chunk st) (chunk_overlap cfg);
                       new_length = int (length overlap_text)
                   in st\<lparr>chunks := chunks st @
                             [\<lparr>chunk_text = str_strip chunk_txt,
                               start_char = current_start st,
                               end_char = current_start st + int (length chunk_txt),
                               chunk_index = next_index st,
                               chunk_metadata = metadata\<rparr>],
                          next_index := Suc (next_index st),
                          current_chunk := (if overlap_text \<noteq> [] then [overlap_text] else []),
                          current_length := new_length,
                          current_start := int sentence_start - new_length\<rparr>)
                else st)
      in chunk_loop cfg metadata rest
           (st\<lparr>current_chunk := current_chunk st @ [sentence],
               current_length := current_length st + sentence_length + 1\<rparr>))"

text \<open>
  The end of \<open>chunk\<close>: the sentences left over become the last chunk, or, when they are
  shorter than \<open>min_chunk_size\<close>, are appended to the chunk before.
\<close>

definition finish_chunks :: "text_chunker \<Rightarrow> json_dict option \<Rightarrow> chunk_loop_state \<Rightarrow> Chunk list" where
  "finish_chunks cfg metadata st =
     (if current_chunk st = [] then chunks st
      else
        (let chunk_txt = join_with '' '' (current_chunk st)
         in if int (length chunk_txt) \<ge> min_chunk_size cfg
            then chunks st @
                   [\<lparr>chunk_text = str_strip chunk_txt,
                     start_char = current_start st,
                     end_char = current_start st + int (length chunk_txt),
                     chunk_index = next_index st,
                     chunk_metadata = metadata\<rparr>]
            else if chunks st \<noteq> []
            then
              (let prev_chunk = last (chunks st);
                   merged_text = chunk_text prev_chunk @ '' '' @ str_strip chunk_txt
               in butlast (chunks st) @
                    [\<lparr>chunk_text = merged_text,
                      start_char = start_char prev_chunk,
                      end_char = start_char prev_chunk + int (length merged_text),
                      chunk_index = chunk_index prev_chunk,
                      chunk_metadata = metadata\<rparr>])
            else chunks st))"

text \<open>\<open>TextChunker.chunk\<close>.\<close>

definition chunk ::
  "text_chunker \<Rightarrow> (string \<Rightarrow> string list) \<Rightarrow> string \<Rightarrow> json_dict option \<Rightarrow> Chunk list" where
  "chunk cfg re_split text metadata =
     (if text = [] \<or> int (length text) < min_chunk_size cfg
      then (if text \<noteq> []
            then [\<lparr>chunk_text = str_strip text, start_char = 0,
                    end_char = int (length text), chunk_index = 0,
                    chunk_metadata = metadata\<rparr>]
            else [])
      else finish_chunks cfg metadata
             (chunk_loop cfg metadata (split_into_sentences re_split text)
                \<lparr>chunks = [], current_chunk = [], current_start = 0, current_length = 0,
                  next_index = 0\<rparr>))"

section \<open>Embedder: \<open>semantic/embedder.py\<close>\<close>

text \<open>
  What the embedder is given. \<open>cfg_batch_size\<close> is \<open>EMBEDDING_BATCH_SIZE\<close> of the
  configuration; \<open>cfg_cache_key\<close> is \<open>hashlib.sha256(text.encode()).hexdigest()[:16]\<close>;
  \<open>cfg_provider n batch\<close> is the answer of the embedding provider to the \<open>n\<close>-th request it
  receives, the embeddings of the batch in the order of the inputs, or the exception that the
  request raises; \<open>cfg_disk_writable\<close> tells whether a file of the cache directory can be
  written.
\<close>

record embedder_config =
  cfg_api_key :: string
  cfg_batch_size :: nat
  cfg_cache_key :: "string \<Rightarrow> string"
  cfg_provider :: "nat \<Rightarrow> string list \<Rightarrow> exn + embedding list"
  cfg_disk_writable :: bool

text \<open>
  The state: \<open>emb_cache\<close> is the dictionary \<open>self._cache\<close> of one \<open>Embedder\<close> object,
  \<open>emb_files\<close> the files of the cache directory by name, \<open>emb_calls\<close> the batches sent to
  the provider so far, in order.
\<close>

record embedder_state =
  emb_cache :: "string \<rightharpoonup> embedding"
  emb_files :: "string \<rightharpoonup> embedding"
  emb_calls :: "string list list"

text \<open>
  \<open>_load_cache\<close> opens \<open>cache_index.json\<close>, when the file exists, and logs how many entries it
  has: it changes nothing. (No function of the class writes \<open>cache_index.json\<close>.)
\<close>

definition load_cache :: "embedder_state \<Rightarrow> embedder_state" where
  "load_cache st = st"

text \<open>
  \<open>Embedder.__init__\<close> over a cache directory with the files \<open>files\<close>: \<open>self._cache = {}\<close>,
  then \<open>self._load_cache()\<close>.
\<close>

definition embedder_init ::
  "embedder_config \<Rightarrow> (string \<rightharpoonup> embedding) \<Rightarrow> string list list \<Rightarrow> exn + embedder_state" where
  "embedder_init cfg files calls =
     (if cfg_api_key cfg = [] then Inl (ValueError ''OpenAI API key is required'')
      else Inr (load_cache \<lparr>emb_cache = Map.empty, emb_files = files, emb_calls = calls\<rparr>))"

definition save_cache_entry ::
  "embedder_config \<Rightarrow> embedder_state \<Rightarrow> string \<Rightarrow> embedding \<Rightarrow> embedder_state" where
  "save_cache_entry cfg st key embedding =
     (if cfg_disk_writable cfg
      then st\<lparr>emb_files := (emb_files st)(key @ ''.json'' \<mapsto> embedding)\<rparr>
      else st)"

text \<open>\<open>_load_cache_entry\<close> reads the file of one key. No function of the class calls it.\<close>

definition load_cache_entry :: "embedder_state \<Rightarrow> string \<Rightarrow> embedding option" where
  "load_cache_entry st key = emb_files st (key @ ''.json'')"

definition truncate_text :: "string \<Rightarrow> string" where
  "truncate_text text = (if length text > 8000 * 4 then take (8000 * 4) text else text)"

text \<open>The slices \<open>texts[i : i + batch_size]\<close> for \<open>i\<close> in \<open>range(0, len(texts), batch_size)\<close>.\<close>

function split_batches :: "nat \<Rightarrow> 'a list \<Rightarrow> 'a list list" where
  "split_batches n xs =
     (if n = 0 \<or> xs = [] then [] else take n xs # split_batches n (drop n xs))"
  by pat_completeness auto
termination
  by (relation "measure (\<lambda>(n, xs). length xs)") auto

declare split_batches.simps [simp del]

text \<open>The loop of \<open>_embed_batch\<close>: one request for every batch; the first exception ends it.\<close>

fun embed_batches ::
  "embedder_config \<Rightarrow> embedder_state \<Rightarrow> string list list \<Rightarrow> embedding list \<Rightarrow>
   (exn + embedding list) \<times> embedder_state" where
  "embed_batches cfg st [] all_embeddings = (Inr all_embeddings, st)"
| "embed_batches cfg st (batch # rest) all_embeddings =
     (let batch = map truncate_text batch;
          response = cfg_provider cfg (length (emb_calls st)) batch;
          st = st\<lparr>emb_calls := emb_calls st @ [batch]\<rparr>
      in case response of
           Inl e \<Rightarrow> (Inl e, st)
         | Inr batch_embeddings \<Rightarrow> embed_batches cfg st rest (all_embeddings @ batch_embeddings))"

text \<open>One attempt of \<open>_embed_batch\<close>. \<open>range\<close> raises \<open>ValueError\<close> for the step 0.\<close>

definition embed_batch_once ::
  "embedder_config \<Rightarrow> embedder_state \<Rightarrow> string list \<Rightarrow>
   (exn + embedding list) \<times> embedder_state" where
  "embed_batch_once cfg st texts =
     (if cfg_batch_size cfg = 0 then (Inl (ValueError ''range() arg 3 must not be zero''), st)
      else embed_batches cfg st (split_batches (cfg_batch_size cfg) texts) [])"

text \<open>
  The decorator \<open>@retry(stop=stop_after_attempt(3), ...)\<close>: an attempt that raises is made
  again, and after the last one \<open>tenacity\<close> raises its \<open>RetryError\<close>. The waiting between
  attempts is not part of the model.
\<close>

fun retrying ::
  "nat \<Rightarrow> embedder_config \<Rightarrow> embedder_state \<Rightarrow> string list \<Rightarrow>
   (exn + embedding list) \<times> embedder_state" where
  "retrying 0 cfg st texts = (Inl (OtherError ''RetryError''), st)"
| "retrying (Suc n) cfg st texts =
     (case embed_batch_once cfg st texts of
        (Inr embeddings, st') \<Rightarrow> (Inr embeddings, st')
      | (Inl e, st') \<Rightarrow> retrying n cfg st' texts)"

definition embed_batch_internal ::
  "embedder_config \<Rightarrow> embedder_state \<Rightarrow> string list \<Rightarrow>
   (exn + embedding list) \<times> embedder_state" where
  "embed_batch_internal cfg st texts = retrying (Suc (Suc (Suc 0))) cfg st texts"

text \<open>\<open>Embedder.embed\<close>. \<open>_embed_batch([text])[0]\<close> raises \<open>IndexError\<close> on an empty answer.\<close>

definition embed :: "embedder_config \<Rightarrow> embedder_state \<Rightarrow> string \<Rightarrow> (exn + embedding) \<times> embedder_state" where
  "embed cfg st text =
     (let cache_key = cfg_cache_key cfg text
      in case emb_cache st cache_key of
           Some embedding \<Rightarrow> (Inr embedding, st)
         | None \<Rightarrow>
            (case embed_batch_internal cfg st [text] of
               (Inl e, st') \<Rightarrow> (Inl e, st')
             | (Inr [], st') \<Rightarrow> (Inl IndexError, st')
             | (Inr (embedding # _), st') \<Rightarrow>
                 (Inr embedding,
                  save_cache_entry cfg
                    (st'\<lparr>emb_cache := (emb_cache st')(cache_key \<mapsto> embedding)\<rparr>)
                    cache_key embedding)))"

text \<open>
  \<open>Embedder.embed_batch\<close>: the texts found in the cache, the others sent to the provider in
  one call of \<open>_embed_batch\<close>, every new embedding stored in the cache and on disk, and the
  embeddings returned in the order of the inputs.
\<close>

definition store_new ::
  "embedder_config \<Rightarrow> string list \<Rightarrow> embedder_state \<Rightarrow> (nat \<times> embedding) list \<Rightarrow> embedder_state" where
  "store_new cfg texts st pairs =
     fold (\<lambda>(idx, embedding) st.
             save_cache_entry cfg
               (st\<lparr>emb_cache := (emb_cache st)(cfg_cache_key cfg (texts ! idx) \<mapsto> embedding)\<rparr>)
               (cfg_cache_key cfg (texts ! idx)) embedding)
          pairs st"

definition embed_batch ::
  "embedder_config \<Rightarrow> embedder_state \<Rightarrow> string list \<Rightarrow>
   (exn + embedding list) \<times> embedder_state" where
  "embed_batch cfg st texts =
     (let indexed = zip [0 ..< length texts] texts;
          results = concat (map (\<lambda>(i, text).
                       case emb_cache st (cfg_cache_key cfg text) of
                         Some embedding \<Rightarrow> [(i, embedding)] | None \<Rightarrow> []) indexed);
          to_embed = filter (\<lambda>(i, text). emb_cache st (cfg_cache_key cfg text) = None) indexed
      in if to_embed = [] then (Inr (map snd (sort_key fst results)), st)
         else
           (case embed_batch_internal cfg st (map snd to_embed) of
              (Inl e, st') \<Rightarrow> (Inl e, st')
            | (Inr new_embeddings, st') \<Rightarrow>
                (let pairs = zip (map fst to_embed) new_embeddings
                 in (Inr (map snd (sort_key fst (results @ pairs))),
                     store_new cfg texts st' pairs))))"

text \<open>
  An embedder for the examples: the key of a text is the text after \<open>k_\<close>, and the provider
  answers every text of a batch with the same vector.
\<close>

definition demo_embedder :: embedder_config where
  "demo_embedder =
     \<lparr>cfg_api_key = ''sk-test'', cfg_batch_size = 100,
      cfg_cache_key = (\<lambda>text. ''k_'' @ text),
      cfg_provider = (\<lambda>n batch. Inr (map (\<lambda>text. [1, 2]) batch)),
      cfg_disk_writable = True\<rparr>"

text \<open>The first embedder object over an empty cache directory, before any request.\<close>

definition first_embedder :: embedder_state where
  "first_embedder = \<lparr>emb_cache = Map.empty, emb_files = Map.empty, emb_calls = []\<rparr>"

text \<open>
  The state after \<open>embed("hello")\<close>, and the second embedder object, made over the same cache
  directory after the first one is gone.
\<close>

definition after_hello :: embedder_state where
  "after_hello = snd (embed demo_embedder first_embedder ''hello'')"

definition second_embedder :: embedder_state where
  "second_embedder =
     \<lparr>emb_cache = Map.empty, emb_files = emb_files after_hello, emb_calls = emb_calls after_hello\<rparr>"

section \<open>Gmail indexer: \<open>indexers/gmail_indexer.py\<close>\<close>


















record person =
  per_email :: string
  per_name :: "string option"
  per_relation :: string
















section \<open>Properties of the storage layer\<close>

subsection \<open>Auxiliary facts about tables\<close>

lemma find_append_if:
  "find P (xs @ ys) = (case find P xs of None \<Rightarrow> find P ys | Some x \<Rightarrow> Some x)"
  by (induction xs) auto

lemma find_None_iff_id: "find (\<lambda>r. ent_id r = i) xs = None \<longleftrightarrow> i \<notin> ent_id ` set xs"
  by (induction xs) auto

lemma find_None_iff_cid: "find (\<lambda>r. con_id r = i) xs = None \<longleftrightarrow> i \<notin> con_id ` set xs"
  by (induction xs) auto

lemma map_upd_fresh_ent:
  "i \<notin> ent_id ` set xs \<Longrightarrow> map (\<lambda>r. if ent_id r = i then f r else r) xs = xs"
  by (induction xs) auto

lemma map_upd_fresh_con:
  "i \<notin> con_id ` set xs \<Longrightarrow> map (\<lambda>r. if con_id r = i then f r else r) xs = xs"
  by (induction xs) auto

lemma entities_upsert_fresh:
  "get_entity s i = None \<Longrightarrow>
   upsert_entity now s i t n src acc em md =
     (True, log_change now (s\<lparr>entities := entities s @
        [\<lparr>ent_id = i, ent_type = t, ent_name = n, ent_email = em, ent_source = src,
          ent_source_account = acc, ent_metadata = metadata_json md,
          ent_created_at = now, ent_updated_at = now\<rparr>]\<rparr>) ''entities'' i ''insert'')"
  by (simp add: upsert_entity_def get_entity_def Let_def)

lemma upsert_entity_twice:
  fixes now1 now2 s i t n src acc em md
  assumes fresh: "get_entity s i = None"
  defines "c1 \<equiv> upsert_entity now1 s i t n src acc em md"
  defines "c2 \<equiv> upsert_entity now2 (snd c1) i t n src acc em md"
  shows "fst c1 = True" and "fst c2 = False"
    and "entities (snd c2) =
         map (\<lambda>r. if ent_id r = i then r\<lparr>ent_updated_at := now2\<rparr> else r) (entities (snd c1))"
proof -
  have nin: "i \<notin> ent_id ` set (entities s)"
    using fresh by (simp add: get_entity_def find_None_iff_id)
  have c1: "c1 = (True, log_change now1 (s\<lparr>entities := entities s @
        [\<lparr>ent_id = i, ent_type = t, ent_name = n, ent_email = em, ent_source = src,
          ent_source_account = acc, ent_metadata = metadata_json md,
          ent_created_at = now1, ent_updated_at = now1\<rparr>]\<rparr>) ''entities'' i ''insert'')"
    unfolding c1_def by (rule entities_upsert_fresh[OF fresh])
  show "fst c1 = True" by (simp add: c1)
  have ex: "find (\<lambda>r. ent_id r = i) (entities (snd c1)) \<noteq> None"
    by (simp add: c1 log_change_def find_append_if split: option.splits)
  show "fst c2 = False"
    unfolding c2_def using ex by (simp add: upsert_entity_def Let_def)
  show "entities (snd c2) =
         map (\<lambda>r. if ent_id r = i then r\<lparr>ent_updated_at := now2\<rparr> else r) (entities (snd c1))"
    unfolding c2_def using ex nin
    by (simp add: upsert_entity_def Let_def c1 log_change_def map_upd_fresh_ent)
qed

lemma content_upsert_fresh:
  "get_content s i = None \<Longrightarrow>
   upsert_content now s i t src acc ti bo sid url ts md =
     (True, log_change now (s\<lparr>content := content s @
        [\<lparr>con_id = i, con_type = t, con_title = ti, con_body = bo, con_source = src,
          con_source_account = acc, con_source_id = sid, con_url = url,
          con_timestamp = map_option isoformat ts, con_metadata = metadata_json md,
          con_created_at = now, con_updated_at = now\<rparr>]\<rparr>) ''content'' i ''insert'')"
  by (simp add: upsert_content_def get_content_def Let_def)

lemma upsert_content_twice:
  fixes now1 now2 s i t src acc ti bo sid url ts md
  assumes fresh: "get_content s i = None"
  defines "c1 \<equiv> upsert_content now1 s i t src acc ti bo sid url ts md"
  defines "c2 \<equiv> upsert_content now2 (snd c1) i t src acc ti bo sid url ts md"
  shows "fst c1 = True" and "fst c2 = False"
    and "content (snd c2) =
         map (\<lambda>r. if con_id r = i then r\<lparr>con_updated_at := now2\<rparr> else r) (content (snd c1))"
proof -
  have nin: "i \<notin> con_id ` set (content s)"
    using fresh by (simp add: get_content_def find_None_iff_cid)
  have c1: "c1 = (True, log_change now1 (s\<lparr>content := content s @
        [\<lparr>con_id = i, con_type = t, con_title = ti, con_body = bo, con_source = src,
          con_source_account = acc, con_source_id = sid, con_url = url,
          con_timestamp = map_option isoformat ts, con_metadata = metadata_json md,
          con_created_at = now1, con_updated_at = now1\<rparr>]\<rparr>) ''content'' i ''insert'')"
    unfolding c1_def by (rule content_upsert_fresh[OF fresh])
  show "fst c1 = True" by (simp add: c1)
  have ex: "find (\<lambda>r. con_id r = i) (content (snd c1)) \<noteq> None"
    by (simp add: c1 log_change_def find_append_if split: option.splits)
  show "fst c2 = False"
    unfolding c2_def using ex by (simp add: upsert_content_def Let_def)
  show "content (snd c2) =
         map (\<lambda>r. if con_id r = i then r\<lparr>con_updated_at := now2\<rparr> else r) (content (snd c1))"
    unfolding c2_def using ex nin
    by (simp add: upsert_content_def Let_def c1 log_change_def map_upd_fresh_con)
qed


subsection \<open>Upserting twice\<close>

text \<open>
  Claim C2, as the code has it. For an entity id (respectively a content id) that is not
  stored yet, two calls of \<open>upsert_entity\<close> (respectively \<open>upsert_content\<close>) in a row with the
  same field values return \<open>True\<close> and then \<open>False\<close>. The second call is an UPDATE that sets
  \<open>updated_at = CURRENT_TIMESTAMP\<close>: after it the table is the one after the first call with
  \<open>updated_at\<close> of that row set to the time of the second call, every other column and every
  other row as before. The row is the same exactly when both calls read the same clock value.
\<close>

theorem upsert_twice_idempotent:
  fixes now1 now2 s i t n src acc em md c ct csrc cacc ti bo sid url ts cmd
  assumes fresh_entity: "get_entity s i = None"
      and fresh_content: "get_content s c = None"
  defines "e1 \<equiv> upsert_entity now1 s i t n src acc em md"
  defines "e2 \<equiv> upsert_entity now2 (snd e1) i t n src acc em md"
  defines "k1 \<equiv> upsert_content now1 s c ct csrc cacc ti bo sid url ts cmd"
  defines "k2 \<equiv> upsert_content now2 (snd k1) c ct csrc cacc ti bo sid url ts cmd"
  shows "fst e1 = True \<and> fst e2 = False
       \<and> entities (snd e2) =
           map (\<lambda>r. if ent_id r = i then r\<lparr>ent_updated_at := now2\<rparr> else r) (entities (snd e1))
       \<and> (now2 = now1 \<longrightarrow> entities (snd e2) = entities (snd e1))
       \<and> fst k1 = True \<and> fst k2 = False
       \<and> content (snd k2) =
           map (\<lambda>r. if con_id r = c then r\<lparr>con_updated_at := now2\<rparr> else r) (content (snd k1))
       \<and> (now2 = now1 \<longrightarrow> content (snd k2) = content (snd k1))"
proof -
  have E1: "fst e1 = True"
    unfolding e1_def by (rule upsert_entity_twice(1)[OF fresh_entity])
  have E2: "fst e2 = False"
    unfolding e2_def e1_def by (rule upsert_entity_twice(2)[OF fresh_entity])
  have E3: "entities (snd e2) =
      map (\<lambda>r. if ent_id r = i then r\<lparr>ent_updated_at := now2\<rparr> else r) (entities (snd e1))"
    unfolding e2_def e1_def by (rule upsert_entity_twice(3)[OF fresh_entity])
  have K1: "fst k1 = True"
    unfolding k1_def by (rule upsert_content_twice(1)[OF fresh_content])
  have K2: "fst k2 = False"
    unfolding k2_def k1_def by (rule upsert_content_twice(2)[OF fresh_content])
  have K3: "content (snd k2) =
      map (\<lambda>r. if con_id r = c then r\<lparr>con_updated_at := now2\<rparr> else r) (content (snd k1))"
    unfolding k2_def k1_def by (rule upsert_content_twice(3)[OF fresh_content])
  have e1: "entities (snd e1) = entities s @
        [\<lparr>ent_id = i, ent_type = t, ent_name = n, ent_email = em, ent_source = src,
          ent_source_account = acc, ent_metadata = metadata_json md,
          ent_created_at = now1, ent_updated_at = now1\<rparr>]"
    unfolding e1_def by (simp add: entities_upsert_fresh[OF fresh_entity] log_change_def)
  have k1: "content (snd k1) = content s @
        [\<lparr>con_id = c, con_type = ct, con_title = ti, con_body = bo, con_source = csrc,
          con_source_account = cacc, con_source_id = sid, con_url = url,
          con_timestamp = map_option isoformat ts, con_metadata = metadata_json cmd,
          con_created_at = now1, con_updated_at = now1\<rparr>]"
    unfolding k1_def by (simp add: content_upsert_fresh[OF fresh_content] log_change_def)
  have nin: "i \<notin> ent_id ` set (entities s)"
    using fresh_entity by (simp add: get_entity_def find_None_iff_id)
  have cnin: "c \<notin> con_id ` set (content s)"
    using fresh_content by (simp add: get_content_def find_None_iff_cid)
  have es: "now2 = now1 \<longrightarrow> entities (snd e2) = entities (snd e1)"
    using nin by (simp add: E3 e1 map_upd_fresh_ent)
  have ks: "now2 = now1 \<longrightarrow> content (snd k2) = content (snd k1)"
    using cnin by (simp add: K3 k1 map_upd_fresh_con)
  from E1 E2 E3 K1 K2 K3 es ks show ?thesis by blast
qed


text \<open>The theorem at a concrete person and a concrete mail, on the empty database.\<close>

theorem upsert_twice_idempotent_witness:
  "get_entity empty_kg ''person:a@b.c'' = None \<and> get_content empty_kg ''gmail:acct:1'' = None
   \<and> fst (upsert_entity ''t1'' empty_kg ''person:a@b.c'' ''person'' ''A'' ''gmail'' None
            (Some ''a@b.c'') None) = True
   \<and> fst (upsert_entity ''t2''
            (snd (upsert_entity ''t1'' empty_kg ''person:a@b.c'' ''person'' ''A'' ''gmail'' None
                    (Some ''a@b.c'') None))
            ''person:a@b.c'' ''person'' ''A'' ''gmail'' None (Some ''a@b.c'') None) = False
   \<and> fst (upsert_content ''t1'' empty_kg ''gmail:acct:1'' ''email'' ''gmail'' (Some ''acct'')
            (Some ''Quarterly Report'') (Some ''the quarterly numbers'') (Some ''1'') None None
            None) = True
   \<and> fst (upsert_content ''t2''
            (snd (upsert_content ''t1'' empty_kg ''gmail:acct:1'' ''email'' ''gmail'' (Some ''acct'')
                    (Some ''Quarterly Report'') (Some ''the quarterly numbers'') (Some ''1'') None
                    None None))
            ''gmail:acct:1'' ''email'' ''gmail'' (Some ''acct'')
            (Some ''Quarterly Report'') (Some ''the quarterly numbers'') (Some ''1'') None None
            None) = False"
proof -
  have h1: "get_entity empty_kg ''person:a@b.c'' = None"
    by (simp add: get_entity_def empty_kg_def)
  have h2: "get_content empty_kg ''gmail:acct:1'' = None"
    by (simp add: get_content_def empty_kg_def)
  show ?thesis
    using h1 h2
      upsert_twice_idempotent [OF h1 h2, where ?now1.0="''t1''" and t="''person''"
        and n="''A''" and src="''gmail''" and acc=None and em="Some ''a@b.c''" and md=None
        and ?now2.0="''t2''" and ct="''email''" and csrc="''gmail''" and cacc="Some ''acct''"
        and ti="Some ''Quarterly Report''" and bo="Some ''the quarterly numbers''"
        and sid="Some ''1''" and url=None and ts=None and cmd=None]
    by simp
qed


text \<open>
  Claim C2 as it is written says that the stored row is unchanged after the second call. Five
  seconds after the insert, the second call leaves a row that differs from the first one (in
  \<open>updated_at\<close>).
\<close>

theorem upsert_row_changed_counterexample:
  "get_entity
     (snd (upsert_entity ''2024-01-01 00:00:05''
        (snd (upsert_entity ''2024-01-01 00:00:00'' empty_kg ''person:a@b.c'' ''person'' ''A''
                ''gmail'' None (Some ''a@b.c'') None))
        ''person:a@b.c'' ''person'' ''A'' ''gmail'' None (Some ''a@b.c'') None))
     ''person:a@b.c''
   \<noteq> get_entity
     (snd (upsert_entity ''2024-01-01 00:00:00'' empty_kg ''person:a@b.c'' ''person'' ''A''
             ''gmail'' None (Some ''a@b.c'') None))
     ''person:a@b.c''"
  by (simp add: upsert_entity_def get_entity_def empty_kg_def log_change_def metadata_json_def)

subsection \<open>The changelog\<close>

lemma changelog_upsert_entity:
  "changelog (snd (upsert_entity now s i t n src acc em md)) = changelog s @
     [\<lparr>log_id = Suc (log_seq s), log_table_name = ''entities'', log_record_id = i,
       log_action = (if get_entity s i = None then ''insert'' else ''update''),
       log_old_value = None, log_new_value = None, log_timestamp = now\<rparr>]"
  by (simp add: upsert_entity_def get_entity_def log_change_def Let_def)

lemma changelog_upsert_content:
  "changelog (snd (upsert_content now s i t src acc ti bo sid url ts md)) = changelog s @
     [\<lparr>log_id = Suc (log_seq s), log_table_name = ''content'', log_record_id = i,
       log_action = (if get_content s i = None then ''insert'' else ''update''),
       log_old_value = None, log_new_value = None, log_timestamp = now\<rparr>]"
  by (simp add: upsert_content_def get_content_def log_change_def Let_def)

lemma filter_none_con: "filter (\<lambda>r. con_id r = i) xs = [] \<Longrightarrow> filter (\<lambda>r. con_id r \<noteq> i) xs = xs"
  by (induction xs) (auto split: if_splits)

lemma filter_none_ent: "filter (\<lambda>r. ent_id r = i) xs = [] \<Longrightarrow> filter (\<lambda>r. ent_id r \<noteq> i) xs = xs"
  by (induction xs) (auto split: if_splits)

lemma changelog_delete_content:
  "changelog (snd (delete_content now s i)) = changelog s @
     (if fst (delete_content now s i)
      then [\<lparr>log_id = Suc (log_seq s), log_table_name = ''content'', log_record_id = i,
             log_action = ''delete'', log_old_value = None, log_new_value = None,
             log_timestamp = now\<rparr>]
      else [])"
  by (simp add: delete_content_def log_change_def Let_def)

lemma delete_content_no_write:
  "\<not> fst (delete_content now s i) \<Longrightarrow> snd (delete_content now s i) = s"
  by (simp add: delete_content_def Let_def filter_none_con split: if_splits)

lemma changelog_delete_entity:
  "changelog (snd (delete_entity now s i)) = changelog s @
     (if fst (delete_entity now s i)
      then [\<lparr>log_id = Suc (log_seq s), log_table_name = ''entities'', log_record_id = i,
             log_action = ''delete'', log_old_value = None, log_new_value = None,
             log_timestamp = now\<rparr>]
      else [])"
  by (simp add: delete_entity_def log_change_def Let_def)

lemma delete_entity_no_write:
  "\<not> fst (delete_entity now s i) \<Longrightarrow> snd (delete_entity now s i) = s"
  by (simp add: delete_entity_def Let_def filter_none_ent split: if_splits)

lemma insert_relationship_cases:
  "insert_relationship now s f ft t tt rel mj = Inl IntegrityError \<or>
   (\<exists>s'. insert_relationship now s f ft t tt rel mj = Inr s' \<and> changelog s' = changelog s
      \<and> relationships s' \<noteq> relationships s)"
  by (simp add: insert_relationship_def)

lemma add_relationship_total:
  "add_relationship now s f ft t tt rel md = Inr (False, s) \<or>
   (\<exists>s'. add_relationship now s f ft t tt rel md = Inr (True, s') \<and>
      insert_relationship now s f ft t tt rel (metadata_json md) = Inr s')"
  using insert_relationship_cases[of now s f ft t tt rel "metadata_json md"]
  by (auto simp: add_relationship_def)

lemma changelog_add_relationship:
  "add_relationship now s f ft t tt rel md = Inr (b, s') \<Longrightarrow> changelog s' = changelog s"
  using insert_relationship_cases[of now s f ft t tt rel "metadata_json md"]
  by (auto simp: add_relationship_def)

lemma changelog_set_last_sync:
  "changelog (set_last_sync s src acc ls tok md) = changelog s"
  by (simp add: set_last_sync_def Let_def)


lemma kg_two_people_eq:
  "kg_two_people = \<lparr>entities =
      [\<lparr>ent_id = ''person:a'', ent_type = ''person'', ent_name = ''Person A'', ent_email = None,
        ent_source = ''gmail'', ent_source_account = None, ent_metadata = None,
        ent_created_at = ''2024-01-01 00:00:00'', ent_updated_at = ''2024-01-01 00:00:00''\<rparr>,
       \<lparr>ent_id = ''person:b'', ent_type = ''person'', ent_name = ''Person B'', ent_email = None,
        ent_source = ''gmail'', ent_source_account = None, ent_metadata = None,
        ent_created_at = ''2024-01-01 00:00:00'', ent_updated_at = ''2024-01-01 00:00:00''\<rparr>],
     content = [], relationships = [],
     changelog =
      [\<lparr>log_id = 1, log_table_name = ''entities'', log_record_id = ''person:a'',
        log_action = ''insert'', log_old_value = None, log_new_value = None,
        log_timestamp = ''2024-01-01 00:00:00''\<rparr>,
       \<lparr>log_id = 2, log_table_name = ''entities'', log_record_id = ''person:b'',
        log_action = ''insert'', log_old_value = None, log_new_value = None,
        log_timestamp = ''2024-01-01 00:00:00''\<rparr>],
     sync_state = [], rel_seq = 0, log_seq = 2\<rparr>"
  by (simp add: kg_two_people_def upsert_entity_def empty_kg_def log_change_def metadata_json_def
      numeral_2_eq_2)


text \<open>
  Claim C3, as the code has it. Every write to the entities or the content table through
  \<open>upsert_entity\<close>, \<open>upsert_content\<close>, \<open>delete_content\<close> or \<open>delete_entity\<close> appends exactly one
  record to the changelog in the same operation (a delete that finds no row writes nothing and
  logs nothing). \<open>add_relationship\<close> and \<open>set_last_sync\<close> write to their tables without
  appending to the changelog. No operation changes or removes a record that the changelog
  already holds: the old changelog is a prefix of the new one.
\<close>

theorem changelog_append_only:
  "changelog (snd (upsert_entity now s i t n src acc em md)) = changelog s @
     [\<lparr>log_id = Suc (log_seq s), log_table_name = ''entities'', log_record_id = i,
       log_action = (if get_entity s i = None then ''insert'' else ''update''),
       log_old_value = None, log_new_value = None, log_timestamp = now\<rparr>]
   \<and> changelog (snd (upsert_content now s c ct csrc cacc ti bo sid url ts cmd)) = changelog s @
     [\<lparr>log_id = Suc (log_seq s), log_table_name = ''content'', log_record_id = c,
       log_action = (if get_content s c = None then ''insert'' else ''update''),
       log_old_value = None, log_new_value = None, log_timestamp = now\<rparr>]
   \<and> changelog (snd (delete_content now s c)) = changelog s @
     (if fst (delete_content now s c)
      then [\<lparr>log_id = Suc (log_seq s), log_table_name = ''content'', log_record_id = c,
             log_action = ''delete'', log_old_value = None, log_new_value = None,
             log_timestamp = now\<rparr>]
      else [])
   \<and> (\<not> fst (delete_content now s c) \<longrightarrow> snd (delete_content now s c) = s)
   \<and> changelog (snd (delete_entity now s i)) = changelog s @
     (if fst (delete_entity now s i)
      then [\<lparr>log_id = Suc (log_seq s), log_table_name = ''entities'', log_record_id = i,
             log_action = ''delete'', log_old_value = None, log_new_value = None,
             log_timestamp = now\<rparr>]
      else [])
   \<and> (\<not> fst (delete_entity now s i) \<longrightarrow> snd (delete_entity now s i) = s)
   \<and> (\<forall>b s'. add_relationship now s f ft g gt rel rmd = Inr (b, s') \<longrightarrow>
          changelog s' = changelog s)
   \<and> changelog (set_last_sync s ssrc sacc ls tok smd) = changelog s"
  using changelog_upsert_entity[of now s i t n src acc em md]
    changelog_upsert_content[of now s c ct csrc cacc ti bo sid url ts cmd]
    changelog_delete_content[of now s c] delete_content_no_write[of now s c]
    changelog_delete_entity[of now s i] delete_entity_no_write[of now s i]
    changelog_add_relationship[of now s f ft g gt rel rmd]
    changelog_set_last_sync[of s ssrc sacc ls tok smd]
  by blast


text \<open>The theorem on the database with two people: a delete that misses and a delete that hits.\<close>

theorem changelog_append_only_witness:
  "\<not> fst (delete_content ''2024-01-02 00:00:00'' kg_two_people ''gmail:acct:1'')
   \<and> snd (delete_content ''2024-01-02 00:00:00'' kg_two_people ''gmail:acct:1'') = kg_two_people
   \<and> fst (delete_entity ''2024-01-02 00:00:00'' kg_two_people ''person:a'')
   \<and> changelog (snd (delete_entity ''2024-01-02 00:00:00'' kg_two_people ''person:a'')) =
       changelog kg_two_people @
       [\<lparr>log_id = 3, log_table_name = ''entities'', log_record_id = ''person:a'',
         log_action = ''delete'', log_old_value = None, log_new_value = None,
         log_timestamp = ''2024-01-02 00:00:00''\<rparr>]"
proof -
  have h1: "\<not> fst (delete_content ''2024-01-02 00:00:00'' kg_two_people ''gmail:acct:1'')"
    by (simp add: kg_two_people_eq delete_content_def)
  have h2: "fst (delete_entity ''2024-01-02 00:00:00'' kg_two_people ''person:a'')"
    by (simp add: kg_two_people_eq delete_entity_def)
  have h3: "Suc (log_seq kg_two_people) = 3"
    by (simp add: kg_two_people_eq)
  show ?thesis
    using h1 h2 h3
      changelog_append_only [where now = "''2024-01-02 00:00:00''" and s = kg_two_people
        and c = "''gmail:acct:1''" and i = "''person:a''"]
    by simp
qed


text \<open>
  Claim C3 as it is written counts \<open>add_relationship\<close> and \<open>set_last_sync\<close> among the
  operations whose writes are logged. On the database with two people, \<open>add_relationship\<close>
  stores a new edge and \<open>set_last_sync\<close> stores a new cursor row, and the changelog is the same
  after each of them.
\<close>

theorem unlogged_writes_counterexample:
  "add_relationship ''2024-01-02 00:00:00'' kg_two_people ''person:a'' ''person''
       ''person:b'' ''person'' ''knows'' None =
     Inr (True, kg_two_people\<lparr>relationships :=
            [\<lparr>rel_id = 1, rel_from_id = ''person:a'', rel_from_type = ''person'',
              rel_to_id = ''person:b'', rel_to_type = ''person'', rel_relation = ''knows'',
              rel_metadata = None, rel_created_at = ''2024-01-02 00:00:00''\<rparr>],
            rel_seq := 1\<rparr>)
   \<and> relationships kg_two_people = []
   \<and> changelog (kg_two_people\<lparr>relationships :=
            [\<lparr>rel_id = 1, rel_from_id = ''person:a'', rel_from_type = ''person'',
              rel_to_id = ''person:b'', rel_to_type = ''person'', rel_relation = ''knows'',
              rel_metadata = None, rel_created_at = ''2024-01-02 00:00:00''\<rparr>],
            rel_seq := 1\<rparr>) = changelog kg_two_people
   \<and> sync_state (set_last_sync kg_two_people ''gmail'' ''acct''
         (DateTime ''2024-01-02T00:00:00+00:00'') (Some ''tok1'') None)
       \<noteq> sync_state kg_two_people
   \<and> changelog (set_last_sync kg_two_people ''gmail'' ''acct''
         (DateTime ''2024-01-02T00:00:00+00:00'') (Some ''tok1'') None)
       = changelog kg_two_people"
  by (simp add: kg_two_people_eq add_relationship_def insert_relationship_def set_last_sync_def
      metadata_json_def)

subsection \<open>Edges that violate a constraint\<close>

text \<open>
  Claim C9. \<open>add_relationship\<close> never raises: it always returns a boolean. It returns
  \<open>False\<close>, with the database as it was, whenever the INSERT violates a constraint: not
  only for an edge \<open>(from_id, to_id, relation)\<close> that is already stored, but also, with
  foreign keys enforced, for an edge whose \<open>from_id\<close> or \<open>to_id\<close> is not the id of a stored
  entity.
\<close>

theorem add_relationship_integrity:
  "(\<exists>b s'. add_relationship now s f ft g gt rel md = Inr (b, s'))
   \<and> (insert_relationship now s f ft g gt rel (metadata_json md) = Inl IntegrityError \<longrightarrow>
        add_relationship now s f ft g gt rel md = Inr (False, s))
   \<and> (f \<notin> ent_id ` set (entities s) \<or> g \<notin> ent_id ` set (entities s) \<longrightarrow>
        add_relationship now s f ft g gt rel md = Inr (False, s))
   \<and> ((\<exists>r \<in> set (relationships s).
          rel_from_id r = f \<and> rel_to_id r = g \<and> rel_relation r = rel) \<longrightarrow>
        add_relationship now s f ft g gt rel md = Inr (False, s))"
proof -
  have a: "\<exists>b s'. add_relationship now s f ft g gt rel md = Inr (b, s')"
    using add_relationship_total[of now s f ft g gt rel md] by blast
  have b: "insert_relationship now s f ft g gt rel (metadata_json md) = Inl IntegrityError \<longrightarrow>
        add_relationship now s f ft g gt rel md = Inr (False, s)"
    by (simp add: add_relationship_def)
  have c: "f \<notin> ent_id ` set (entities s) \<or> g \<notin> ent_id ` set (entities s) \<longrightarrow>
        insert_relationship now s f ft g gt rel (metadata_json md) = Inl IntegrityError"
    by (simp add: insert_relationship_def)
  have d: "(\<exists>r \<in> set (relationships s).
          rel_from_id r = f \<and> rel_to_id r = g \<and> rel_relation r = rel) \<longrightarrow>
        insert_relationship now s f ft g gt rel (metadata_json md) = Inl IntegrityError"
    by (simp add: insert_relationship_def)
  from a b c d show ?thesis by blast
qed


text \<open>
  The theorem at a mail's content id as \<open>from_id\<close>, the way \<open>GmailIndexer._index_message\<close>
  passes it: the edge to the sender is dropped.
\<close>

theorem add_relationship_integrity_witness:
  "''gmail:acct:1'' \<notin> ent_id ` set (entities kg_two_people)
   \<and> add_relationship ''2024-01-02 00:00:00'' kg_two_people ''gmail:acct:1'' ''email''
        ''person:a'' ''person'' ''sender'' None = Inr (False, kg_two_people)"
proof -
  have h: "''gmail:acct:1'' \<notin> ent_id ` set (entities kg_two_people)"
    by (simp add: kg_two_people_eq)
  show ?thesis
    using h add_relationship_integrity [of "''2024-01-02 00:00:00''" kg_two_people
        "''gmail:acct:1''" "''email''" "''person:a''" "''person''" "''sender''" None]
    by blast
qed

subsection \<open>\<open>search_content\<close>\<close>


lemma like_percent_step: "like (CHR ''%'' # P) t = (like P t \<or> (t \<noteq> [] \<and> like (CHR ''%'' # P) (tl t)))"
  by (cases t) auto



lemma str_contains_iff: "str_contains s sub \<longleftrightarrow> (\<exists>u v. s = u @ sub @ v)"
proof (induction s)
  case Nil
  then show ?case by auto
next
  case (Cons c cs)
  show ?case
  proof
    assume "str_contains (c # cs) sub"
    then consider "take (length sub) (c # cs) = sub" | "str_contains cs sub" by auto
    then show "\<exists>u v. c # cs = u @ sub @ v"
    proof cases
      case 1
      then have "c # cs = [] @ sub @ drop (length sub) (c # cs)"
        by (metis append_Nil append_take_drop_id)
      then show ?thesis by blast
    next
      case 2
      then obtain u v where "cs = u @ sub @ v" using Cons.IH by blast
      then have "c # cs = (c # u) @ sub @ v" by simp
      then show ?thesis by blast
    qed
  next
    assume "\<exists>u v. c # cs = u @ sub @ v"
    then obtain u v where uv: "c # cs = u @ sub @ v" by blast
    show "str_contains (c # cs) sub"
    proof (cases u)
      case Nil
      then have "take (length sub) (c # cs) = sub" using uv by (metis append_Nil append_eq_conv_conj)
      then show ?thesis by simp
    next
      case (Cons a u')
      then have "cs = u' @ sub @ v" using uv by simp
      then have "str_contains cs sub" using Cons.IH by blast
      then show ?thesis by simp
    qed
  qed
qed




lemma sorted_order_by_desc:
  "sorted_wrt (\<lambda>a b. key b \<le> key a) (order_by_desc key xs)"
proof -
  have "sorted (map key (sort_key key (rev xs)))"
    by (rule sorted_sort_key)
  then have "sorted_wrt (\<lambda>a b. key a \<le> key b) (sort_key key (rev xs))"
    by (simp only: sorted_map)
  then show ?thesis
    by (simp only: order_by_desc_def sorted_wrt_rev)
qed

lemma set_order_by_desc: "set (order_by_desc key xs) = set xs"
  by (simp add: order_by_desc_def)



lemma set_sql_limit_subset: "set (sql_limit n xs) \<subseteq> set xs"
  by (auto simp: sql_limit_def dest: in_set_takeD)



lemma content_kg_mails: "content kg_mails = [mail1, file3, mail2]"
  by (simp add: kg_mails_def upsert_content_def empty_kg_def log_change_def metadata_json_def
      mail1_def file3_def mail2_def)




lemma search_since:
  "search_content kg_mails None None (Some ''gmail'') None (Some (DateTime ''2024-01-01T10:00:00''))
     (Some (DateTime ''2024-01-02T10:00:00'')) 1 = [mail2]"
  by (simp add: search_content_def content_kg_mails search_conditions_def sql_limit_def
      order_by_desc_def mail1_def file3_def mail2_def)







section \<open>Properties of the query engine\<close>

subsection \<open>Merging, sorting and cutting\<close>

lemma add_unseen_keep:
  "add_unseen rs (acc, seen) =
     (acc @ keep_unseen rs seen, seen \<union> res_id ` set rs)"
  by (induction rs arbitrary: acc seen) auto

lemma ids_keep_unseen: "res_id ` set (keep_unseen rs seen) = res_id ` set rs - seen"
  by (induction rs arbitrary: seen) auto

lemma distinct_keep_unseen: "distinct (map res_id (keep_unseen rs seen))"
proof (induction rs arbitrary: seen)
  case Nil
  show ?case by simp
next
  case (Cons r rs)
  have "res_id r \<notin> res_id ` set (keep_unseen rs (insert (res_id r) seen))"
    by (simp add: ids_keep_unseen)
  with Cons show ?case by simp
qed

lemma keep_unseen_first:
  "r \<in> set (keep_unseen rs seen) \<Longrightarrow>
   find (\<lambda>x. res_id x = res_id r) rs = Some r \<and> res_id r \<notin> seen"
proof (induction rs arbitrary: seen)
  case Nil
  then show ?case by simp
next
  case (Cons a rs)
  show ?case
  proof (cases "res_id a \<in> seen")
    case True
    with Cons.prems have "r \<in> set (keep_unseen rs seen)" by simp
    from Cons.IH[OF this] True show ?thesis by auto
  next
    case False
    with Cons.prems consider "r = a" | "r \<in> set (keep_unseen rs (insert (res_id a) seen))"
      by auto
    then show ?thesis
    proof cases
      case 1
      with False show ?thesis by simp
    next
      case 2
      from Cons.IH[OF this] show ?thesis by auto
    qed
  qed
qed

lemma first_keep_unseen:
  "find (\<lambda>x. res_id x = i) rs = Some r \<Longrightarrow> i \<notin> seen \<Longrightarrow> r \<in> set (keep_unseen rs seen)"
proof (induction rs arbitrary: seen)
  case Nil
  then show ?case by simp
next
  case (Cons a rs)
  show ?case
  proof (cases "res_id a = i")
    case True
    with Cons.prems show ?thesis by simp
  next
    case False
    with Cons.prems have f: "find (\<lambda>x. res_id x = i) rs = Some r" by simp
    from False Cons.prems have "i \<notin> insert (res_id a) seen" by simp
    from Cons.IH[OF f this] Cons.IH[OF f Cons.prems(2)] show ?thesis by simp
  qed
qed

lemma keep_unseen_append:
  "keep_unseen (xs @ ys) seen = keep_unseen xs seen @ keep_unseen ys (seen \<union> res_id ` set xs)"
  by (induction xs arbitrary: seen) (auto simp: insert_absorb)

lemma merge_results_split:
  "merge_results S K = keep_unseen S {} @ keep_unseen K (res_id ` set S)"
  by (simp add: merge_results_def keep_unseen_append)

lemma distinct_merge_results: "distinct (map res_id (merge_results S K))"
  by (simp add: merge_results_def distinct_keep_unseen)

lemma ids_merge_results: "res_id ` set (merge_results S K) = res_id ` set S \<union> res_id ` set K"
  by (simp add: merge_results_def ids_keep_unseen image_Un)

lemma merge_results_semantic:
  assumes "r \<in> set (merge_results S K)" and "res_id r \<in> res_id ` set S"
  shows "find (\<lambda>x. res_id x = res_id r) S = Some r"
proof -
  from assms(1) consider "r \<in> set (keep_unseen S {})" | "r \<in> set (keep_unseen K (res_id ` set S))"
    by (auto simp: merge_results_split)
  then show ?thesis
  proof cases
    case 1
    then show ?thesis using keep_unseen_first by blast
  next
    case 2
    then have "res_id r \<notin> res_id ` set S" using keep_unseen_first by blast
    with assms(2) show ?thesis by simp
  qed
qed

lemma search_results_both:
  assumes "semantic_search env q cts (top_k * 2) = Inr S"
      and "keyword_search env q cts srcs since until (top_k * 2) = Inr K"
  shows "search_results env q cts srcs since until top_k True True = merge_results S K"
  using assms by (simp add: search_results_def add_unseen_keep merge_results_split)

lemma search_results_semantic_only:
  "search_results env q cts srcs since until top_k True False =
     (case semantic_search env q cts (top_k * 2) of Inl e \<Rightarrow> [] | Inr S \<Rightarrow> keep_unseen S {})"
  by (simp add: search_results_def add_unseen_keep split: sum.splits)

lemma search_results_keyword_only:
  "search_results env q cts srcs since until top_k False True =
     (case keyword_search env q cts srcs since until (top_k * 2) of
        Inl e \<Rightarrow> [] | Inr K \<Rightarrow> keep_unseen K {})"
  by (simp add: search_results_def add_unseen_keep split: sum.splits)

lemma search_results_semantic_error:
  "semantic_search env q cts (top_k * 2) = Inl e \<Longrightarrow>
   search_results env q cts srcs since until top_k True uk =
   search_results env q cts srcs since until top_k False uk"
  by (simp add: search_results_def)

lemma search_results_keyword_error:
  "keyword_search env q cts srcs since until (top_k * 2) = Inl e \<Longrightarrow>
   search_results env q cts srcs since until top_k us True =
   search_results env q cts srcs since until top_k us False"
  by (simp add: search_results_def)

lemma distinct_map_order_by_desc:
  "distinct (map f (order_by_desc key xs)) = distinct (map f xs)"
  by (simp add: order_by_desc_def distinct_map)

lemma set_py_take_subset: "set (py_take k xs) \<subseteq> set xs"
  by (auto simp: py_take_def dest: in_set_takeD)

lemma distinct_map_py_take: "distinct (map f xs) \<Longrightarrow> distinct (map f (py_take k xs))"
  by (simp add: py_take_def take_map[symmetric] del: take_map)

lemma sorted_py_take: "sorted_wrt P xs \<Longrightarrow> sorted_wrt P (py_take k xs)"
  by (simp add: py_take_def sorted_wrt_take)

lemma length_py_take: "0 \<le> k \<Longrightarrow> int (length (py_take k xs)) \<le> k"
  by (simp add: py_take_def)

lemma py_take_all: "int (length xs) \<le> k \<Longrightarrow> py_take k xs = xs"
  by (simp add: py_take_def)

lemma distinct_search: "distinct (map res_id (search env q cts srcs since until top_k us uk))"
proof -
  have "distinct (map res_id (search_results env q cts srcs since until top_k us uk))"
    by (auto simp: search_results_def Let_def add_unseen_keep distinct_keep_unseen
        ids_keep_unseen split: sum.splits)
  then show ?thesis
    unfolding search_def by (intro distinct_map_py_take) (simp add: distinct_map_order_by_desc)
qed

lemma sorted_search:
  "sorted_wrt (\<lambda>a b. res_score b \<le> res_score a) (search env q cts srcs since until top_k us uk)"
  unfolding search_def by (intro sorted_py_take sorted_order_by_desc)

lemma count_one:
  "distinct (map f xs) \<Longrightarrow> i \<in> f ` set xs \<Longrightarrow> length (filter (\<lambda>x. f x = i) xs) = 1"
proof (induction xs)
  case Nil
  then show ?case by simp
next
  case (Cons a xs)
  show ?case
  proof (cases "f a = i")
    case True
    with Cons.prems have "i \<notin> f ` set xs" by auto
    then have "filter (\<lambda>x. f x = i) xs = []" by (auto simp: filter_empty_conv)
    with True show ?thesis by simp
  next
    case False
    with Cons show ?thesis by auto
  qed
qed

lemma count_le_one:
  "distinct (map f xs) \<Longrightarrow> length (filter (\<lambda>x. f x = i) xs) \<le> 1"
proof (cases "i \<in> f ` set xs")
  case True
  assume "distinct (map f xs)"
  from count_one[OF this True] show ?thesis by simp
next
  case False
  then have "filter (\<lambda>x. f x = i) xs = []" by (auto simp: filter_empty_conv)
  then show ?thesis by simp
qed

lemma search_not_cut:
  assumes "int (length (search_results env q cts srcs since until top_k us uk)) \<le> top_k"
  shows "set (search env q cts srcs since until top_k us uk) =
         set (search_results env q cts srcs since until top_k us uk)"
proof -
  have "int (length (order_by_desc res_score
           (search_results env q cts srcs since until top_k us uk))) \<le> top_k"
    using assms by (simp add: order_by_desc_def)
  then show ?thesis
    unfolding search_def by (simp add: py_take_all set_order_by_desc)
qed

lemma filter_length_set_eq:
  assumes "distinct (map f xs)" "distinct (map f ys)" "set xs = set ys"
  shows "length (filter (\<lambda>x. f x = i) xs) = length (filter (\<lambda>x. f x = i) ys)"
proof (cases "i \<in> f ` set xs")
  case True
  with assms show ?thesis by (simp add: count_one)
next
  case False
  with assms have "filter (\<lambda>x. f x = i) xs = []" "filter (\<lambda>x. f x = i) ys = []"
    by (auto simp: filter_empty_conv)
  then show ?thesis by simp
qed

lemma semantic_first_in_results:
  assumes "semantic_search env q cts (top_k * 2) = Inr S"
      and "find (\<lambda>x. res_id x = res_id r) S = Some r"
  shows "r \<in> set (search_results env q cts srcs since until top_k True uk)"
proof -
  have "r \<in> set (keep_unseen S {})"
    using first_keep_unseen[OF assms(2)] by simp
  then show ?thesis
    using assms(1)
    by (auto simp: search_results_def Let_def add_unseen_keep split: sum.splits)
qed

lemma search_fusion_same_id:
  assumes S: "semantic_search env q cts (top_k * 2) = Inr S"
      and K: "keyword_search env q cts srcs since until (top_k * 2) = Inr K"
      and i: "i \<in> res_id ` set S" 
  defines "out \<equiv> search env q cts srcs since until top_k True True"
  shows "length (filter (\<lambda>r. res_id r = i) (merge_results S K)) = 1"
    and "length (filter (\<lambda>r. res_id r = i) out) \<le> 1"
    and "int (length (merge_results S K)) \<le> top_k \<longrightarrow>
           length (filter (\<lambda>r. res_id r = i) out) = 1"
    and "\<forall>r \<in> set out. res_id r = i \<longrightarrow> find (\<lambda>x. res_id x = i) S = Some r"
proof -
  have R: "search_results env q cts srcs since until top_k True True = merge_results S K"
    by (rule search_results_both[OF S K])
  have iM: "i \<in> res_id ` set (merge_results S K)"
    using i by (simp add: ids_merge_results)
  show one: "length (filter (\<lambda>r. res_id r = i) (merge_results S K)) = 1"
    by (rule count_one[OF distinct_merge_results iM])
  have d: "distinct (map res_id out)"
    unfolding out_def by (rule distinct_search)
  show "length (filter (\<lambda>r. res_id r = i) out) \<le> 1"
    by (rule count_le_one[OF d])
  show "int (length (merge_results S K)) \<le> top_k \<longrightarrow>
           length (filter (\<lambda>r. res_id r = i) out) = 1"
  proof
    assume "int (length (merge_results S K)) \<le> top_k"
    then have "set out = set (merge_results S K)"
      unfolding out_def using search_not_cut[of env q cts srcs since until top_k True True]
      by (simp add: R)
    from filter_length_set_eq[OF d distinct_merge_results this] one
    show "length (filter (\<lambda>r. res_id r = i) out) = 1" by simp
  qed
  show "\<forall>r \<in> set out. res_id r = i \<longrightarrow> find (\<lambda>x. res_id x = i) S = Some r"
  proof (intro ballI impI)
    fix r assume r: "r \<in> set out" and ri: "res_id r = i"
    have "set out \<subseteq> set (merge_results S K)"
      unfolding out_def search_def R
      using set_py_take_subset[of top_k "order_by_desc res_score (merge_results S K)"]
      by (simp add: set_order_by_desc)
    with r have "r \<in> set (merge_results S K)" by blast
    from merge_results_semantic[OF this] i ri
    show "find (\<lambda>x. res_id x = i) S = Some r" by simp
  qed
qed

lemma content_id_gmail2: "content_id_of_chunk ''gmail:acct:2:chunk:0'' = ''gmail:acct:2''"
  by (simp add: content_id_of_chunk_def)

lemma content_id_gmail1: "content_id_of_chunk ''gmail:acct:1:chunk:0'' = ''gmail:acct:1''"
  by (simp add: content_id_of_chunk_def)

lemma demo_semantic: "semantic_search demo_env ''quarterly'' None k = Inr [sem_hit2, sem_hit1]"
  by (simp add: semantic_search_def demo_env_def vector_store_search_def first_or_empty_def
      content_id_gmail2 content_id_gmail1 sem_hit2_def sem_hit1_def)

lemma search_quarterly_20:
  "search_content kg_mails (Some ''quarterly'') None None None None None 20 = [mail1, file3]"
  by (simp add: search_content_def content_kg_mails search_conditions_def sql_limit_def
      order_by_desc_def like_col_def ascii_lower_def mail1_def file3_def mail2_def)

lemma search_quarterly_2:
  "search_content kg_mails (Some ''quarterly'') None None None None None 2 = [mail1, file3]"
  by (simp add: search_content_def content_kg_mails search_conditions_def sql_limit_def
      order_by_desc_def like_col_def ascii_lower_def mail1_def file3_def mail2_def)

lemma search_quarterly_since:
  "search_content kg_mails (Some ''quarterly'') None None None
     (Some (DateTime ''2024-06-01T00:00:00'')) None 20 = []"
  by (simp add: search_content_def content_kg_mails search_conditions_def sql_limit_def
      order_by_desc_def like_col_def ascii_lower_def mail1_def file3_def mail2_def)

lemma lower_quarterly: "str_lower ''quarterly'' = ''quarterly''"
  by (simp add: str_lower_def ascii_lower_def)

lemma lower_title1: "str_lower ''Quarterly Report'' = ''quarterly report''"
  by (simp add: str_lower_def ascii_lower_def)

lemma lower_body1: "str_lower ''the quarterly numbers'' = ''the quarterly numbers''"
  by (simp add: str_lower_def ascii_lower_def)

lemma lower_title3: "str_lower ''Notes'' = ''notes''"
  by (simp add: str_lower_def ascii_lower_def)

lemma lower_body3: "str_lower ''Quarterly plan'' = ''quarterly plan''"
  by (simp add: str_lower_def ascii_lower_def)

lemma count_title1: "str_count ''quarterly report'' ''quarterly'' = 1"
  by (simp add: str_count.simps)

lemma count_body1: "str_count ''the quarterly numbers'' ''quarterly'' = 1"
  by (simp add: str_count.simps)

lemma count_title3: "str_count ''notes'' ''quarterly'' = 0"
  by (simp add: str_count.simps)

lemma count_body3: "str_count ''quarterly plan'' ''quarterly'' = 1"
  by (simp add: str_count.simps)

lemma score_mail1: "keyword_score ''quarterly'' mail1 = 4 / 10"
  by (simp add: keyword_score_def Let_def mail1_def lower_quarterly lower_title1 lower_body1
      count_title1 count_body1)

lemma score_file3: "keyword_score ''quarterly'' file3 = 1 / 10"
  by (simp add: keyword_score_def Let_def file3_def lower_quarterly lower_title3 lower_body3
      count_title3 count_body3)

lemma demo_keyword_20:
  "keyword_search demo_env ''quarterly'' None None None None 20 = Inr [kw_hit1, kw_hit3]"
proof -
  have "keyword_search demo_env ''quarterly'' None None None None 20 =
        Inr (map (keyword_result ''quarterly'') [mail1, file3])"
    by (simp add: keyword_search_def demo_env_def search_quarterly_20)
  also have "map (keyword_result ''quarterly'') [mail1, file3] = [kw_hit1, kw_hit3]"
    by (simp add: keyword_result_def score_mail1 score_file3 kw_hit1_def kw_hit3_def)
       (simp add: mail1_def file3_def)
  finally show ?thesis .
qed

lemma demo_keyword_2:
  "keyword_search demo_env ''quarterly'' None None None None 2 = Inr [kw_hit1, kw_hit3]"
proof -
  have "keyword_search demo_env ''quarterly'' None None None None 2 =
        Inr (map (keyword_result ''quarterly'') [mail1, file3])"
    by (simp add: keyword_search_def demo_env_def search_quarterly_2)
  also have "map (keyword_result ''quarterly'') [mail1, file3] = [kw_hit1, kw_hit3]"
    by (simp add: keyword_result_def score_mail1 score_file3 kw_hit1_def kw_hit3_def)
       (simp add: mail1_def file3_def)
  finally show ?thesis .
qed

lemma demo_keyword_filtered:
  "keyword_search demo_env ''quarterly'' None (Some [''drive''])
     (Some (DateTime ''2024-06-01T00:00:00'')) None 20 = Inr []"
  by (simp add: keyword_search_def demo_env_def search_quarterly_since)

lemma demo_merge: "merge_results [sem_hit2, sem_hit1] [kw_hit1, kw_hit3] = [sem_hit2, sem_hit1, kw_hit3]"
  by (simp add: merge_results_def sem_hit2_def sem_hit1_def kw_hit1_def kw_hit3_def)

lemma demo_sorted:
  "order_by_desc res_score [sem_hit2, sem_hit1, kw_hit3] = [sem_hit2, sem_hit1, kw_hit3]"
  by (simp add: order_by_desc_def sem_hit2_def sem_hit1_def kw_hit3_def)

lemma demo_search_10:
  "search demo_env ''quarterly'' None None None None 10 True True = [sem_hit2, sem_hit1, kw_hit3]"
proof -
  have "search_results demo_env ''quarterly'' None None None None 10 True True =
        merge_results [sem_hit2, sem_hit1] [kw_hit1, kw_hit3]"
    by (rule search_results_both) (simp_all add: demo_semantic demo_keyword_20)
  then show ?thesis
    by (simp add: search_def demo_merge demo_sorted py_take_def)
qed

lemma demo_search_1:
  "search demo_env ''quarterly'' None None None None 1 True True = [sem_hit2]"
proof -
  have "search_results demo_env ''quarterly'' None None None None 1 True True =
        merge_results [sem_hit2, sem_hit1] [kw_hit1, kw_hit3]"
    by (rule search_results_both) (simp_all add: demo_semantic demo_keyword_2)
  then show ?thesis
    by (simp add: search_def demo_merge demo_sorted py_take_def)
qed

lemma demo_search_filtered:
  "search demo_env ''quarterly'' None (Some [''drive''])
     (Some (DateTime ''2024-06-01T00:00:00'')) None 10 True True = [sem_hit2, sem_hit1]"
proof -
  have "search_results demo_env ''quarterly'' None (Some [''drive''])
     (Some (DateTime ''2024-06-01T00:00:00'')) None 10 True True =
        merge_results [sem_hit2, sem_hit1] []"
    by (rule search_results_both) (simp_all add: demo_semantic demo_keyword_filtered)
  also have "\<dots> = [sem_hit2, sem_hit1]"
    by (simp add: merge_results_def sem_hit2_def sem_hit1_def)
  finally show ?thesis
    by (simp add: search_def order_by_desc_def py_take_def sem_hit2_def sem_hit1_def)
qed

lemma search_content_time_bounds:
  assumes "r \<in> set (search_content s query ct src acc since until limit)"
  shows "(\<forall>d. since = Some d \<longrightarrow> (\<exists>t. con_timestamp r = Some t \<and> isoformat d \<le> t))
       \<and> (\<forall>d. until = Some d \<longrightarrow> (\<exists>t. con_timestamp r = Some t \<and> t \<le> isoformat d))"
proof -
  from assms have "r \<in> set (order_by_desc con_timestamp
      (filter (\<lambda>r. list_all (\<lambda>c. c r) (search_conditions query ct src acc since until))
         (content s)))"
    unfolding search_content_def Let_def using set_sql_limit_subset by fastforce
  then have c: "list_all (\<lambda>c. c r) (search_conditions query ct src acc since until)"
    by (simp add: set_order_by_desc)
  have a: "\<forall>d. since = Some d \<longrightarrow> (\<exists>t. con_timestamp r = Some t \<and> isoformat d \<le> t)"
    using c by (auto simp: search_conditions_def split: option.splits)
  have b: "\<forall>d. until = Some d \<longrightarrow> (\<exists>t. con_timestamp r = Some t \<and> t \<le> isoformat d)"
    using c by (auto simp: search_conditions_def split: option.splits)
  from a b show ?thesis by blast
qed

lemma keyword_search_rows:
  assumes "keyword_search env q cts srcs since until limit = Inr K" and "r \<in> set K"
  shows "\<exists>kg row ct. env_kg env = Inr kg \<and> r = keyword_result q row
           \<and> row \<in> set (search_content kg (Some q) ct None None since until limit)
           \<and> (\<forall>ss. srcs = Some ss \<longrightarrow> ss \<noteq> [] \<longrightarrow> con_source row \<in> set ss)"
proof (cases "env_kg env")
  case (Inl e)
  with assms show ?thesis by (simp add: keyword_search_def)
next
  case (Inr kg)
  define rows where "rows =
     (case cts of
        None \<Rightarrow> search_content kg (Some q) None None None since until limit
      | Some c \<Rightarrow>
          if c = [] then search_content kg (Some q) None None None since until limit
          else concat (map (\<lambda>content_type.
                 search_content kg (Some q) (Some content_type) None None since until limit) c))"
  define rows' where "rows' =
     (case srcs of None \<Rightarrow> rows
      | Some ss \<Rightarrow> if ss = [] then rows else filter (\<lambda>r. con_source r \<in> set ss) rows)"
  have K: "K = map (keyword_result q) rows'"
    using assms(1) Inr
    by (auto simp: keyword_search_def rows_def rows'_def Let_def split: option.splits)
  with assms(2) obtain row where row: "row \<in> set rows'" "r = keyword_result q row" by auto
  have sub: "row \<in> set rows" and src: "\<forall>ss. srcs = Some ss \<longrightarrow> ss \<noteq> [] \<longrightarrow> con_source row \<in> set ss"
    using row(1) by (auto simp: rows'_def split: option.splits if_splits)
  have "\<exists>ct. row \<in> set (search_content kg (Some q) ct None None since until limit)"
    using sub by (auto simp: rows_def split: option.splits if_splits)
  with Inr row(2) src show ?thesis by blast
qed

subsection \<open>Fusion of the two branches\<close>

text \<open>
  Claim C1, as the code has it. When both branches return a hit for the same content id, the
  merged list (before it is cut) holds exactly one entry for that id, and it is the first
  semantic hit for the id, so it carries the semantic score. The list that \<open>search\<close> returns
  is the merged list sorted by score, descending, and cut to \<open>top_k\<close>: it holds at most one
  entry for the id, and exactly one when the merged list is not longer than \<open>top_k\<close>. When one
  branch raises, \<open>search\<close> returns the results of the other one (deduplicated, sorted and
  cut in the same way).
\<close>

theorem search_fusion:
  fixes env q cts srcs since until top_k
  defines "out \<equiv> search env q cts srcs since until top_k True True"
  shows
    "(\<forall>S K i. semantic_search env q cts (top_k * 2) = Inr S \<longrightarrow>
        keyword_search env q cts srcs since until (top_k * 2) = Inr K \<longrightarrow>
        i \<in> res_id ` set S \<longrightarrow> i \<in> res_id ` set K \<longrightarrow>
          search_results env q cts srcs since until top_k True True = merge_results S K
          \<and> length (filter (\<lambda>r. res_id r = i) (merge_results S K)) = 1
          \<and> length (filter (\<lambda>r. res_id r = i) out) \<le> 1
          \<and> (int (length (merge_results S K)) \<le> top_k \<longrightarrow>
                length (filter (\<lambda>r. res_id r = i) out) = 1)
          \<and> (\<forall>r \<in> set out. res_id r = i \<longrightarrow> find (\<lambda>x. res_id x = i) S = Some r))
     \<and> out = py_take top_k (order_by_desc res_score
                (search_results env q cts srcs since until top_k True True))
     \<and> sorted_wrt (\<lambda>a b. res_score b \<le> res_score a) out
     \<and> (0 \<le> top_k \<longrightarrow> int (length out) \<le> top_k)
     \<and> (\<forall>e K. semantic_search env q cts (top_k * 2) = Inl e \<longrightarrow>
           keyword_search env q cts srcs since until (top_k * 2) = Inr K \<longrightarrow>
           out = py_take top_k (order_by_desc res_score (keep_unseen K {})))
     \<and> (\<forall>e S. keyword_search env q cts srcs since until (top_k * 2) = Inl e \<longrightarrow>
           semantic_search env q cts (top_k * 2) = Inr S \<longrightarrow>
           out = py_take top_k (order_by_desc res_score (keep_unseen S {})))"
proof -
  have a: "\<forall>S K i. semantic_search env q cts (top_k * 2) = Inr S \<longrightarrow>
        keyword_search env q cts srcs since until (top_k * 2) = Inr K \<longrightarrow>
        i \<in> res_id ` set S \<longrightarrow> i \<in> res_id ` set K \<longrightarrow>
          search_results env q cts srcs since until top_k True True = merge_results S K
          \<and> length (filter (\<lambda>r. res_id r = i) (merge_results S K)) = 1
          \<and> length (filter (\<lambda>r. res_id r = i) out) \<le> 1
          \<and> (int (length (merge_results S K)) \<le> top_k \<longrightarrow>
                length (filter (\<lambda>r. res_id r = i) out) = 1)
          \<and> (\<forall>r \<in> set out. res_id r = i \<longrightarrow> find (\<lambda>x. res_id x = i) S = Some r)"
  proof (intro allI impI)
    fix S K i
    assume S: "semantic_search env q cts (top_k * 2) = Inr S"
       and K: "keyword_search env q cts srcs since until (top_k * 2) = Inr K"
       and i: "i \<in> res_id ` set S"
    note F = search_fusion_same_id[OF S K i, folded out_def]
    from search_results_both[OF S K] F
    show "search_results env q cts srcs since until top_k True True = merge_results S K
          \<and> length (filter (\<lambda>r. res_id r = i) (merge_results S K)) = 1
          \<and> length (filter (\<lambda>r. res_id r = i) out) \<le> 1
          \<and> (int (length (merge_results S K)) \<le> top_k \<longrightarrow>
                length (filter (\<lambda>r. res_id r = i) out) = 1)
          \<and> (\<forall>r \<in> set out. res_id r = i \<longrightarrow> find (\<lambda>x. res_id x = i) S = Some r)"
      by blast
  qed
  have b: "out = py_take top_k (order_by_desc res_score
                (search_results env q cts srcs since until top_k True True))"
    by (simp add: out_def search_def)
  have c: "sorted_wrt (\<lambda>a b. res_score b \<le> res_score a) out"
    unfolding out_def by (rule sorted_search)
  have d: "0 \<le> top_k \<longrightarrow> int (length out) \<le> top_k"
    unfolding b by (simp add: length_py_take)
  have e: "\<forall>e K. semantic_search env q cts (top_k * 2) = Inl e \<longrightarrow>
           keyword_search env q cts srcs since until (top_k * 2) = Inr K \<longrightarrow>
           out = py_take top_k (order_by_desc res_score (keep_unseen K {}))"
    by (simp add: b search_results_def add_unseen_keep)
  have f: "\<forall>e S. keyword_search env q cts srcs since until (top_k * 2) = Inl e \<longrightarrow>
           semantic_search env q cts (top_k * 2) = Inr S \<longrightarrow>
           out = py_take top_k (order_by_desc res_score (keep_unseen S {}))"
    by (simp add: b search_results_def add_unseen_keep)
  from a b c d e f show ?thesis by blast
qed

text \<open>
  The theorem at the query \<open>quarterly\<close> with \<open>top_k = 10\<close>: the first mail is found by both
  branches, and the result holds its semantic hit (score 0.7) and not its keyword hit (0.4).
\<close>

theorem search_fusion_witness:
  "semantic_search demo_env ''quarterly'' None (10 * 2) = Inr [sem_hit2, sem_hit1]
   \<and> keyword_search demo_env ''quarterly'' None None None None (10 * 2) = Inr [kw_hit1, kw_hit3]
   \<and> ''gmail:acct:1'' \<in> res_id ` set [sem_hit2, sem_hit1]
   \<and> ''gmail:acct:1'' \<in> res_id ` set [kw_hit1, kw_hit3]
   \<and> int (length (merge_results [sem_hit2, sem_hit1] [kw_hit1, kw_hit3])) \<le> 10
   \<and> search demo_env ''quarterly'' None None None None 10 True True
        = [sem_hit2, sem_hit1, kw_hit3]
   \<and> length (filter (\<lambda>r. res_id r = ''gmail:acct:1'')
        (search demo_env ''quarterly'' None None None None 10 True True)) = 1
   \<and> find (\<lambda>x. res_id x = ''gmail:acct:1'') [sem_hit2, sem_hit1] = Some sem_hit1
   \<and> res_score sem_hit1 = 7 / 10 \<and> res_score kw_hit1 = 4 / 10"
proof -
  have S: "semantic_search demo_env ''quarterly'' None (10 * 2) = Inr [sem_hit2, sem_hit1]"
    by (rule demo_semantic)
  have K: "keyword_search demo_env ''quarterly'' None None None None (10 * 2)
            = Inr [kw_hit1, kw_hit3]"
    using demo_keyword_20 by simp
  have i: "''gmail:acct:1'' \<in> res_id ` set [sem_hit2, sem_hit1]"
    by (simp add: sem_hit1_def)
  have j: "''gmail:acct:1'' \<in> res_id ` set [kw_hit1, kw_hit3]"
    by (simp add: kw_hit1_def)
  have l: "int (length (merge_results [sem_hit2, sem_hit1] [kw_hit1, kw_hit3])) \<le> 10"
    by (simp add: demo_merge)
  have one: "length (filter (\<lambda>r. res_id r = ''gmail:acct:1'')
        (search demo_env ''quarterly'' None None None None 10 True True)) = 1"
    using search_fusion [of demo_env "''quarterly''" None 10 None None None] S K i j l
    by blast
  have f: "find (\<lambda>x. res_id x = ''gmail:acct:1'') [sem_hit2, sem_hit1] = Some sem_hit1"
    by (simp add: sem_hit2_def sem_hit1_def)
  have sc: "res_score sem_hit1 = 7 / 10 \<and> res_score kw_hit1 = 4 / 10"
    by (simp add: sem_hit1_def kw_hit1_def)
  from S K i j l one f sc demo_search_10 show ?thesis by blast
qed

text \<open>
  Claim C1 as it is written says that \<open>search\<close> returns exactly one entry for an id that both
  branches found. With \<open>top_k = 1\<close> both branches find the first mail, and the result is the
  one hit with the best score, which belongs to the second mail: no entry for the first.
\<close>

theorem search_truncation_counterexample:
  "semantic_search demo_env ''quarterly'' None (1 * 2) = Inr [sem_hit2, sem_hit1]
   \<and> keyword_search demo_env ''quarterly'' None None None None (1 * 2) = Inr [kw_hit1, kw_hit3]
   \<and> res_id sem_hit1 = ''gmail:acct:1'' \<and> res_id kw_hit1 = ''gmail:acct:1''
   \<and> search demo_env ''quarterly'' None None None None 1 True True = [sem_hit2]
   \<and> res_id sem_hit2 \<noteq> ''gmail:acct:1''"
  using demo_keyword_2
  by (simp add: demo_semantic demo_search_1 sem_hit1_def kw_hit1_def sem_hit2_def)

subsection \<open>The keyword score\<close>



subsection \<open>Filters and the semantic branch\<close>

text \<open>
  Claim C10. \<open>sources\<close>, \<open>since\<close> and \<open>until\<close> reach the keyword branch only. A search with
  the semantic branch alone returns the same list whatever these three arguments are; with
  both branches, the first semantic hit of every id is in the merged list whatever they are
  (and in the returned list when \<open>top_k\<close> does not cut), while every keyword hit is a row
  whose source is among \<open>sources\<close> and whose timestamp lies between \<open>since\<close> and \<open>until\<close>.
\<close>

theorem semantic_branch_unfiltered:
  "search env q cts srcs since until top_k True False =
     search env q cts srcs' since' until' top_k True False
   \<and> (\<forall>S r. semantic_search env q cts (top_k * 2) = Inr S \<longrightarrow>
         find (\<lambda>x. res_id x = res_id r) S = Some r \<longrightarrow>
           r \<in> set (search_results env q cts srcs since until top_k True uk)
           \<and> (int (length (search_results env q cts srcs since until top_k True uk)) \<le> top_k
                \<longrightarrow> r \<in> set (search env q cts srcs since until top_k True uk)))
   \<and> (\<forall>K r. keyword_search env q cts srcs since until (top_k * 2) = Inr K \<longrightarrow> r \<in> set K \<longrightarrow>
         (\<exists>row. res_row r = Some row
            \<and> (\<forall>ss. srcs = Some ss \<longrightarrow> ss \<noteq> [] \<longrightarrow> con_source row \<in> set ss)
            \<and> (\<forall>d. since = Some d \<longrightarrow>
                  (\<exists>t. con_timestamp row = Some t \<and> isoformat d \<le> t))
            \<and> (\<forall>d. until = Some d \<longrightarrow>
                  (\<exists>t. con_timestamp row = Some t \<and> t \<le> isoformat d))))"
proof -
  have a: "search env q cts srcs since until top_k True False =
     search env q cts srcs' since' until' top_k True False"
    by (simp add: search_def search_results_semantic_only)
  have b: "\<forall>S r. semantic_search env q cts (top_k * 2) = Inr S \<longrightarrow>
         find (\<lambda>x. res_id x = res_id r) S = Some r \<longrightarrow>
           r \<in> set (search_results env q cts srcs since until top_k True uk)
           \<and> (int (length (search_results env q cts srcs since until top_k True uk)) \<le> top_k
                \<longrightarrow> r \<in> set (search env q cts srcs since until top_k True uk))"
    using semantic_first_in_results search_not_cut by blast
  have c: "\<forall>K r. keyword_search env q cts srcs since until (top_k * 2) = Inr K \<longrightarrow> r \<in> set K \<longrightarrow>
         (\<exists>row. res_row r = Some row
            \<and> (\<forall>ss. srcs = Some ss \<longrightarrow> ss \<noteq> [] \<longrightarrow> con_source row \<in> set ss)
            \<and> (\<forall>d. since = Some d \<longrightarrow>
                  (\<exists>t. con_timestamp row = Some t \<and> isoformat d \<le> t))
            \<and> (\<forall>d. until = Some d \<longrightarrow>
                  (\<exists>t. con_timestamp row = Some t \<and> t \<le> isoformat d)))"
  proof (intro allI impI)
    fix K r
    assume K: "keyword_search env q cts srcs since until (top_k * 2) = Inr K" and r: "r \<in> set K"
    from keyword_search_rows[OF K r] obtain kg row ct where
      row: "r = keyword_result q row"
        "row \<in> set (search_content kg (Some q) ct None None since until (top_k * 2))"
        "\<forall>ss. srcs = Some ss \<longrightarrow> ss \<noteq> [] \<longrightarrow> con_source row \<in> set ss"
      by blast
    have "res_row r = Some row" using row(1) by (simp add: keyword_result_def)
    with search_content_time_bounds[OF row(2)] row(3)
    show "\<exists>row. res_row r = Some row
            \<and> (\<forall>ss. srcs = Some ss \<longrightarrow> ss \<noteq> [] \<longrightarrow> con_source row \<in> set ss)
            \<and> (\<forall>d. since = Some d \<longrightarrow>
                  (\<exists>t. con_timestamp row = Some t \<and> isoformat d \<le> t))
            \<and> (\<forall>d. until = Some d \<longrightarrow>
                  (\<exists>t. con_timestamp row = Some t \<and> t \<le> isoformat d))"
      by blast
  qed
  from a b c show ?thesis by blast
qed

text \<open>
  The theorem at a search restricted to the source \<open>drive\<close> and to June 2024 and later: it
  returns the semantic hit of a mail from the source \<open>gmail\<close>, dated January 2024.
\<close>

theorem semantic_branch_unfiltered_witness:
  "semantic_search demo_env ''quarterly'' None (10 * 2) = Inr [sem_hit2, sem_hit1]
   \<and> find (\<lambda>x. res_id x = res_id sem_hit1) [sem_hit2, sem_hit1] = Some sem_hit1
   \<and> sem_hit1 \<in> set (search_results demo_env ''quarterly'' None (Some [''drive''])
        (Some (DateTime ''2024-06-01T00:00:00'')) None 10 True True)
   \<and> search demo_env ''quarterly'' None (Some [''drive''])
        (Some (DateTime ''2024-06-01T00:00:00'')) None 10 True True = [sem_hit2, sem_hit1]
   \<and> res_id sem_hit1 = con_id mail1 \<and> con_source mail1 \<notin> set [''drive'']
   \<and> con_timestamp mail1 = Some ''2024-01-01T10:00:00''
   \<and> \<not> isoformat (DateTime ''2024-06-01T00:00:00'') \<le> ''2024-01-01T10:00:00''"
proof -
  have S: "semantic_search demo_env ''quarterly'' None (10 * 2) = Inr [sem_hit2, sem_hit1]"
    by (rule demo_semantic)
  have f: "find (\<lambda>x. res_id x = res_id sem_hit1) [sem_hit2, sem_hit1] = Some sem_hit1"
    by (simp add: sem_hit2_def sem_hit1_def)
  have m: "sem_hit1 \<in> set (search_results demo_env ''quarterly'' None (Some [''drive''])
        (Some (DateTime ''2024-06-01T00:00:00'')) None 10 True True)"
    using semantic_branch_unfiltered [of demo_env "''quarterly''" None "Some [''drive'']"
        "Some (DateTime ''2024-06-01T00:00:00'')" None 10 None None None True] S f
    by blast
  have rest: "res_id sem_hit1 = con_id mail1 \<and> con_source mail1 \<notin> set [''drive'']
   \<and> con_timestamp mail1 = Some ''2024-01-01T10:00:00''
   \<and> \<not> isoformat (DateTime ''2024-06-01T00:00:00'') \<le> ''2024-01-01T10:00:00''"
    by (simp add: sem_hit1_def mail1_def)
  from S f m rest demo_search_filtered show ?thesis by blast
qed

section \<open>Properties of the chunker\<close>




section \<open>Properties of the embedder\<close>

subsection \<open>The cache of one embedder object\<close>

text \<open>
  Within one \<open>Embedder\<close> object the cache works: a text whose key is in \<open>self._cache\<close> is
  answered without a request to the provider, and \<open>embed\<close> puts the key there. An object
  whose cache does not hold the key sends a request, whatever the files of the cache
  directory hold; so does every object that \<open>__init__\<close> has just made.
\<close>

lemma embed_cache_hit:
  "emb_cache st (cfg_cache_key cfg text) = Some e \<Longrightarrow> embed cfg st text = (Inr e, st)"
  by (simp add: embed_def)

lemma embed_fills_cache:
  "embed cfg st text = (Inr e, st') \<Longrightarrow> emb_cache st' (cfg_cache_key cfg text) = Some e"
  by (auto simp: embed_def Let_def save_cache_entry_def split: option.splits prod.splits sum.splits list.splits if_splits)

lemma embed_twice_same_object:
  "embed cfg st text = (Inr e, st') \<Longrightarrow> embed cfg st' text = (Inr e, st')"
  by (rule embed_cache_hit) (rule embed_fills_cache)

lemma embed_batches_calls:
  "length (emb_calls st) + (if batches = [] then 0 else 1)
     \<le> length (emb_calls (snd (embed_batches cfg st batches acc)))"
proof (induction batches arbitrary: st acc)
  case Nil
  show ?case by simp
next
  case (Cons b bs)
  show ?case
  proof (cases "cfg_provider cfg (length (emb_calls st)) (map truncate_text b)")
    case (Inl e)
    then show ?thesis by (simp add: Let_def)
  next
    case (Inr embs)
    have "length (emb_calls (st\<lparr>emb_calls := emb_calls st @ [map truncate_text b]\<rparr>))
          \<le> length (emb_calls (snd (embed_batches cfg
                (st\<lparr>emb_calls := emb_calls st @ [map truncate_text b]\<rparr>) bs (acc @ embs))))"
      using Cons.IH[of "st\<lparr>emb_calls := emb_calls st @ [map truncate_text b]\<rparr>" "acc @ embs"]
      by (simp split: if_splits)
    with Inr show ?thesis by (simp add: Let_def)
  qed
qed

lemma embed_batch_once_calls:
  "length (emb_calls st) \<le> length (emb_calls (snd (embed_batch_once cfg st texts)))"
  using embed_batches_calls[of st "split_batches (cfg_batch_size cfg) texts" cfg "[]"]
  by (simp add: embed_batch_once_def split: if_splits)

lemma embed_batch_once_calls_strict:
  assumes "0 < cfg_batch_size cfg" and "texts \<noteq> []"
  shows "length (emb_calls st) < length (emb_calls (snd (embed_batch_once cfg st texts)))"
proof -
  have "split_batches (cfg_batch_size cfg) texts \<noteq> []"
    using assms by (subst split_batches.simps) simp
  with embed_batches_calls[of st "split_batches (cfg_batch_size cfg) texts" cfg "[]"] assms(1)
  show ?thesis by (simp add: embed_batch_once_def)
qed

lemma retrying_calls:
  "length (emb_calls st) \<le> length (emb_calls (snd (retrying n cfg st texts)))"
proof (induction n arbitrary: st)
  case 0
  show ?case by simp
next
  case (Suc n)
  obtain r st' where once: "embed_batch_once cfg st texts = (r, st')"
    by (cases "embed_batch_once cfg st texts")
  have le: "length (emb_calls st) \<le> length (emb_calls st')"
    using embed_batch_once_calls[of st cfg texts] once by simp
  show ?case
  proof (cases r)
    case (Inl e)
    with once le Suc.IH[of st'] show ?thesis by simp
  next
    case (Inr embs)
    with once le show ?thesis by simp
  qed
qed

lemma embed_batch_internal_calls_strict:
  assumes "0 < cfg_batch_size cfg" and "texts \<noteq> []"
  shows "length (emb_calls st) < length (emb_calls (snd (embed_batch_internal cfg st texts)))"
proof -
  obtain r st' where once: "embed_batch_once cfg st texts = (r, st')"
    by (cases "embed_batch_once cfg st texts")
  have lt: "length (emb_calls st) < length (emb_calls st')"
    using embed_batch_once_calls_strict[OF assms, of st] once by simp
  show ?thesis
  proof (cases r)
    case (Inl e)
    with once lt retrying_calls[of st' "Suc (Suc 0)" cfg texts] show ?thesis
      by (simp add: embed_batch_internal_def)
  next
    case (Inr embs)
    with once lt show ?thesis by (simp add: embed_batch_internal_def)
  qed
qed

lemma embed_miss_calls_provider:
  assumes "emb_cache st (cfg_cache_key cfg text) = None" and "0 < cfg_batch_size cfg"
  shows "length (emb_calls st) < length (emb_calls (snd (embed cfg st text)))"
proof -
  obtain r st' where i: "embed_batch_internal cfg st [text] = (r, st')"
    by (cases "embed_batch_internal cfg st [text]")
  have lt: "length (emb_calls st) < length (emb_calls st')"
    using embed_batch_internal_calls_strict[OF assms(2), of "[text]" st] i by simp
  show ?thesis
    using assms(1) i lt
    by (auto simp: embed_def Let_def save_cache_entry_def split: sum.splits list.splits)
qed

lemma embed_after_init_calls_provider:
  assumes "embedder_init cfg files calls = Inr st" and "0 < cfg_batch_size cfg"
  shows "length calls < length (emb_calls (snd (embed cfg st text)))"
proof -
  from assms(1) have st: "st = \<lparr>emb_cache = Map.empty, emb_files = files, emb_calls = calls\<rparr>"
    by (simp add: embedder_init_def load_cache_def split: if_splits)
  then have "emb_cache st (cfg_cache_key cfg text) = None" by simp
  from embed_miss_calls_provider[OF this assms(2)] st show ?thesis by simp
qed

subsection \<open>After a restart\<close>

lemma split_one: "split_batches 100 [''hello''] = [ [''hello''] ]"
  by (simp add: split_batches.simps)

lemma embed_hello:
  "embed demo_embedder first_embedder ''hello'' =
     (Inr [1, 2], \<lparr>emb_cache = [''k_hello'' \<mapsto> [1, 2] ], emb_files = [''k_hello.json'' \<mapsto> [1, 2] ],
                   emb_calls = [ [''hello''] ]\<rparr>)"
  by (simp add: embed_def Let_def demo_embedder_def first_embedder_def embed_batch_internal_def
      embed_batch_once_def split_one truncate_text_def save_cache_entry_def)

lemma after_hello_eq:
  "after_hello = \<lparr>emb_cache = [''k_hello'' \<mapsto> [1, 2] ], emb_files = [''k_hello.json'' \<mapsto> [1, 2] ],
                   emb_calls = [ [''hello''] ]\<rparr>"
  by (simp add: after_hello_def embed_hello)

lemma second_embedder_init:
  "embedder_init demo_embedder (emb_files after_hello) (emb_calls after_hello) = Inr second_embedder"
  by (simp add: embedder_init_def demo_embedder_def load_cache_def second_embedder_def)

text \<open>
  Claim C4 at a concrete run. The first embedder object embeds \<open>hello\<close> with one request to
  the provider and writes the file of its key; asked again, the same object answers from
  its cache. A second object made over the same cache directory starts with an empty
  \<open>self._cache\<close>, and its \<open>embed("hello")\<close> sends a second request to the provider, although
  the file of the key is there: nothing reads it.
\<close>

theorem embed_after_restart_calls_provider:
  "fst (embed demo_embedder first_embedder ''hello'') = Inr [1, 2]
   \<and> emb_calls after_hello = [ [''hello''] ]
   \<and> load_cache_entry after_hello (cfg_cache_key demo_embedder ''hello'') = Some [1, 2]
   \<and> embed demo_embedder after_hello ''hello'' = (Inr [1, 2], after_hello)
   \<and> embedder_init demo_embedder (emb_files after_hello) (emb_calls after_hello)
        = Inr second_embedder
   \<and> fst (embed demo_embedder second_embedder ''hello'') = Inr [1, 2]
   \<and> emb_calls (snd (embed demo_embedder second_embedder ''hello''))
        = [ [''hello''], [''hello''] ]"
proof -
  have a: "fst (embed demo_embedder first_embedder ''hello'') = Inr [1, 2]"
    by (simp add: embed_hello)
  have b: "emb_calls after_hello = [ [''hello''] ]"
    by (simp add: after_hello_eq)
  have c: "load_cache_entry after_hello (cfg_cache_key demo_embedder ''hello'') = Some [1, 2]"
    by (simp add: after_hello_eq load_cache_entry_def demo_embedder_def)
  have d: "embed demo_embedder after_hello ''hello'' = (Inr [1, 2], after_hello)"
    by (rule embed_cache_hit) (simp add: after_hello_eq demo_embedder_def)
  have e: "embed demo_embedder second_embedder ''hello'' =
     (Inr [1, 2], \<lparr>emb_cache = [''k_hello'' \<mapsto> [1, 2] ], emb_files = [''k_hello.json'' \<mapsto> [1, 2] ],
                   emb_calls = [ [''hello''], [''hello''] ]\<rparr>)"
    by (simp add: embed_def Let_def demo_embedder_def second_embedder_def after_hello_eq
        embed_batch_internal_def embed_batch_once_def split_one truncate_text_def
        save_cache_entry_def)
  from a b c d e second_embedder_init show ?thesis by simp
qed

section \<open>Properties of the Gmail indexer\<close>

subsection \<open>The keys of \<open>stats\<close>\<close>










subsection \<open>Delta sync without a cursor\<close>







end
